theory Spec2Isabelle
  imports Complex_Main "HOL-Library.Multiset"
begin

section \<open>Types the tensor header relies on\<close>

text \<open>
  Modelled from the spec: \<^verbatim>\<open>taco/type.h\<close> is not among the sources. A \<open>Datatype\<close> is
  the runtime tag of a numeric element kind: a kind and a width in bits. The template
  argument \<open>CType\<close> of \<open>insert\<close> and \<open>at\<close> enters the model as its tag \<open>type<CType>()\<close>.
\<close>

datatype Kind = KBool | KUInt | KInt | KFloat | KComplex

datatype Datatype = Datatype Kind nat

fun getNumBytes :: "Datatype \<Rightarrow> nat" where
  "getNumBytes (Datatype k bits) = (bits + 7) div 8"

text \<open>
  Modelled from the spec: \<^verbatim>\<open>taco/format.h\<close> is not among the sources. A format is a
  sequence of mode formats and a mode ordering; \<open>CSR\<close> stores rows densely and columns
  compressed, \<open>CSC\<close> is the same with the two modes swapped.
\<close>

datatype ModeFormat = dense | compressed

datatype Format = Format "ModeFormat list" "int list"

definition CSR :: Format where
  "CSR = Format [dense, compressed] [0, 1]"

definition CSC :: Format where
  "CSC = Format [dense, compressed] [1, 0]"

text \<open>
  Modelled from the spec: \<^verbatim>\<open>taco/error.h\<close> is not among the sources.
  \<open>taco_uassert(c) << a << b\<close> does nothing when \<open>c\<close> holds and otherwise stops the
  operation with the streamed message. The message is kept as the list of the streamed
  operands, in order. Reading through a null or out-of-range pointer has no defined
  behaviour in C++; the model makes it the error \<open>undefined_behavior\<close>.
\<close>

datatype msg = Str string | Ty Datatype | Num int | Ints "int list" | Const string

datatype error = taco_uassert "msg list" | undefined_behavior

text \<open>
  Modelled from the spec: \<^verbatim>\<open>taco/storage/storage.h\<close> and the generated kernels that
  read and write a \<open>TensorStorage\<close> are not among the sources. The storage is
  represented by its logical content: the (coordinate, value) components in the order
  in which the generated iteration kernel enumerates them.
\<close>

type_synonym 'v TensorStorage = "(int list \<times> 'v) list"

text \<open>
  Modelled from the spec: the index expression language is out of scope. An assignment
  is represented by the two kernels generated for it, as functions on the storage of the
  destination tensor.
\<close>

datatype 'v Assignment =
  Assignment (assembleKernel: "'v TensorStorage \<Rightarrow> 'v TensorStorage")
             (computeKernel: "'v TensorStorage \<Rightarrow> 'v TensorStorage")

section \<open>TensorBase\<close>

text \<open>
  The state reachable from one \<open>TensorBase\<close> handle: the content block (name,
  dimensions, component type, format, storage, assignment, the four need-flags) and the
  handle's own coordinate buffer fields. \<open>handle\<close> is the address of the handle object,
  which is what a \<open>const TensorBase*\<close> compares.

  \<open>coordinateBuffer\<close> is a \<open>std::vector<char>\<close>. The model keeps its size in bytes
  (\<open>coordinateBuffer_size\<close>) and, for the bytes below \<open>coordinateBufferUsed\<close>, the records
  written there (\<open>coordinateBuffer_records\<close>), each \<open>order\<close> integers and one value.
\<close>

record 'v TensorBase =
  handle :: nat
  name :: string
  dimensions :: "int list"
  ctype :: Datatype
  format :: Format
  storage :: "'v TensorStorage"
  assignment :: "'v Assignment option"
  needsPack :: bool
  needsCompile :: bool
  needsAssemble :: bool
  needsCompute :: bool
  coordinateBuffer_size :: nat
  coordinateBuffer_records :: "(int list \<times> 'v) list"
  coordinateBufferUsed :: nat
  coordinateSize :: nat

text \<open>
  Modelled from the spec: \<open>getOrder()\<close> is declared in the header and defined in
  \<^verbatim>\<open>tensor.cpp\<close>, which is not among the sources. The order of a tensor is the number
  of its modes.
\<close>

definition getOrder :: "'v TensorBase \<Rightarrow> nat" where
  "getOrder t = length (dimensions t)"

text \<open>
  Modelled from the spec: \<open>getDimensions()\<close>, defined in \<^verbatim>\<open>tensor.cpp\<close>, returns the
  dimension of each mode.
\<close>

definition getDimensions :: "'v TensorBase \<Rightarrow> int list" where
  "getDimensions t = dimensions t"

text \<open>
  Modelled from the spec: \<open>getComponentType()\<close>, defined in \<^verbatim>\<open>tensor.cpp\<close>, returns the
  datatype the tensor was created with.
\<close>

definition getComponentType :: "'v TensorBase \<Rightarrow> Datatype" where
  "getComponentType t = ctype t"

text \<open>
  Modelled from the spec: \<open>getFormat()\<close>, defined in \<^verbatim>\<open>tensor.cpp\<close>, returns the format
  the tensor was created with.
\<close>

definition getFormat :: "'v TensorBase \<Rightarrow> Format" where
  "getFormat t = format t"

text \<open>
  Modelled from the spec: \<open>getName()\<close>, defined in \<^verbatim>\<open>tensor.cpp\<close>, returns the name.
\<close>

definition getName :: "'v TensorBase \<Rightarrow> string" where
  "getName t = name t"

text \<open>
  Modelled from the spec: \<open>getStorage()\<close>, defined in \<^verbatim>\<open>tensor.cpp\<close>, returns the
  storage.
\<close>

definition getStorage :: "'v TensorBase \<Rightarrow> 'v TensorStorage" where
  "getStorage t = storage t"

text \<open>The size of a C \<open>int\<close> in bytes, on the platforms the library supports.\<close>

definition sizeof_int :: nat where
  "sizeof_int = 4"

text \<open>
  Modelled from the spec: the constructors are declared in the header and defined in
  \<^verbatim>\<open>tensor.cpp\<close>. A tensor is created with its name, component type, dimensions and
  format, an uninitialised (here: empty) storage, no assignment, no flag set, and an
  empty coordinate buffer whose record size is \<open>order\<close> integers and one value. The
  first argument is the address of the handle.
\<close>

definition Tensor_ctor ::
  "nat \<Rightarrow> string \<Rightarrow> Datatype \<Rightarrow> int list \<Rightarrow> Format \<Rightarrow> 'v TensorBase" where
  "Tensor_ctor p nm ct dims fmt =
     \<lparr> handle = p, name = nm, dimensions = dims, ctype = ct, format = fmt,
       storage = [], assignment = None,
       needsPack = False, needsCompile = False, needsAssemble = False,
       needsCompute = False,
       coordinateBuffer_size = 0, coordinateBuffer_records = [],
       coordinateBufferUsed = 0,
       coordinateSize = length dims * sizeof_int + getNumBytes ct \<rparr>"

subsection \<open>insert and setFromComponents\<close>

text \<open>
  \<open>size_t\<close> subtraction wraps around (64 bits): \<open>coordinateBuffer->size() -
  coordinateBufferUsed\<close> is a huge number when more is used than the vector holds.
\<close>

definition size_t_sub :: "nat \<Rightarrow> nat \<Rightarrow> nat" where
  "size_t_sub a b = (if b \<le> a then a - b else 2 ^ 64 - (b - a))"

text \<open>
  \<open>TensorBase::insert\<close> (both overloads, the \<open>initializer_list\<close> one and the
  \<open>vector\<close> one, have the same body). The two assertions come first. Then the vector is
  resized by one record when fewer than \<open>coordinateSize\<close> bytes remain, the coordinates
  and the value are written at offset \<open>coordinateBufferUsed\<close>, the offset moves by
  \<open>coordinateSize\<close> and \<open>needsPack\<close> is set. The write covers \<open>order\<close> integers and
  one value of the component type; when it does not fit below the (resized) size it is
  out of bounds. \<open>syncDependentTensors()\<close> evaluates the other tensors that read this
  one and is defined outside the sources; the model covers a tensor with no
  dependents, where it does nothing.
\<close>

definition TensorBase_insert ::
  "Datatype \<Rightarrow> int list \<Rightarrow> 'v \<Rightarrow> 'v TensorBase \<Rightarrow> error + 'v TensorBase" where
  "TensorBase_insert CType coordinate v t =
     (if length coordinate \<noteq> getOrder t then
        Inl (taco_uassert [Str ''Wrong number of indices''])
      else if getComponentType t \<noteq> CType then
        Inl (taco_uassert
          [Str (''Cannot insert a value of type '' @ [CHR 0x27]), Ty CType,
           Str (CHR 0x27 # '' ''), Str ''into a tensor with component type '',
           Ty (getComponentType t)])
      else
        let size1 =
              (if size_t_sub (coordinateBuffer_size t) (coordinateBufferUsed t)
                    < coordinateSize t
               then coordinateBuffer_size t + coordinateSize t
               else coordinateBuffer_size t)
        in if size1 < coordinateBufferUsed t + length coordinate * sizeof_int
                        + getNumBytes (getComponentType t)
           then Inl undefined_behavior
           else Inr (t\<lparr> coordinateBuffer_size := size1,
                        coordinateBuffer_records :=
                          coordinateBuffer_records t @ [(coordinate, v)],
                        coordinateBufferUsed := coordinateBufferUsed t + coordinateSize t,
                        needsPack := True \<rparr>))"

text \<open>
  \<open>TensorBase::setFromComponents\<close>: one \<open>insert\<close> per component of the range, in
  order; the first failing insert ends the loop.
\<close>

fun setFromComponents ::
  "Datatype \<Rightarrow> (int list \<times> 'v) list \<Rightarrow> 'v TensorBase \<Rightarrow> error + 'v TensorBase" where
  "setFromComponents CType [] t = Inr t"
| "setFromComponents CType (c # cs) t =
     (case TensorBase_insert CType (fst c) (snd c) t of
        Inl e \<Rightarrow> Inl e
      | Inr t' \<Rightarrow> setFromComponents CType cs t')"

section \<open>The staged pipeline\<close>

text \<open>
  Modelled from the spec: \<open>pack()\<close> is declared in the header and defined in
  \<^verbatim>\<open>tensor.cpp\<close>, which is not among the sources; the kernel it invokes is generated.
  The new storage holds every coordinate of the buffer once, with the sum of the
  values recorded for it: structurally duplicate coordinates have their values
  combined by addition.
\<close>

definition pack_records :: "(int list \<times> 'v::comm_monoid_add) list \<Rightarrow> 'v TensorStorage" where
  "pack_records rs =
     map (\<lambda>c. (c, sum_list (map snd (filter (\<lambda>r. fst r = c) rs)))) (remdups (map fst rs))"

text \<open>
  Modelled from the spec: \<open>pack()\<close> (see above) produces the new storage from the
  coordinate buffer, clears the logical content of the buffer (its size stays), clears
  \<open>needsPack\<close>, and sets \<open>needsAssemble\<close> and \<open>needsCompute\<close> if an assignment is
  pending.
\<close>

definition TensorBase_pack :: "'v::comm_monoid_add TensorBase \<Rightarrow> 'v TensorBase" where
  "TensorBase_pack t =
     t\<lparr> storage := pack_records (coordinateBuffer_records t),
        coordinateBuffer_records := [],
        coordinateBufferUsed := 0,
        needsPack := False,
        needsAssemble := (if assignment t \<noteq> None then True else needsAssemble t),
        needsCompute := (if assignment t \<noteq> None then True else needsCompute t) \<rparr>"

text \<open>
  Modelled from the spec: the assertions of \<open>compile()\<close>, \<open>assemble()\<close> and \<open>compute()\<close>
  are in \<^verbatim>\<open>tensor.cpp\<close>. Calling one of them with no assignment set is a contract
  violation; the spec does not give the text of the message, which here only names
  the stage.
\<close>

definition missing_assignment :: "string \<Rightarrow> error" where
  "missing_assignment stage =
     taco_uassert [Str ''No assignment is set when calling '', Str stage]"

text \<open>
  Modelled from the spec: \<open>compile()\<close>, defined in \<^verbatim>\<open>tensor.cpp\<close>, requires an
  assignment, obtains the kernels for it and clears \<open>needsCompile\<close>.
\<close>

definition TensorBase_compile :: "'v TensorBase \<Rightarrow> error + 'v TensorBase" where
  "TensorBase_compile t =
     (case assignment t of
        None \<Rightarrow> Inl (missing_assignment ''compile'')
      | Some a \<Rightarrow> Inr (t\<lparr> needsCompile := False \<rparr>))"

text \<open>
  Modelled from the spec: \<open>assemble()\<close>, defined in \<^verbatim>\<open>tensor.cpp\<close>, invokes the generated
  assemble kernel on the storage and clears \<open>needsAssemble\<close>.
\<close>

definition TensorBase_assemble :: "'v TensorBase \<Rightarrow> error + 'v TensorBase" where
  "TensorBase_assemble t =
     (case assignment t of
        None \<Rightarrow> Inl (missing_assignment ''assemble'')
      | Some a \<Rightarrow> Inr (t\<lparr> storage := assembleKernel a (storage t),
                          needsAssemble := False \<rparr>))"

text \<open>
  Modelled from the spec: \<open>compute()\<close>, defined in \<^verbatim>\<open>tensor.cpp\<close>, invokes the generated
  compute kernel on the storage and clears \<open>needsCompute\<close>.
\<close>

definition TensorBase_compute :: "'v TensorBase \<Rightarrow> error + 'v TensorBase" where
  "TensorBase_compute t =
     (case assignment t of
        None \<Rightarrow> Inl (missing_assignment ''compute'')
      | Some a \<Rightarrow> Inr (t\<lparr> storage := computeKernel a (storage t),
                          needsCompute := False \<rparr>))"

text \<open>
  Modelled from the spec: \<open>evaluate()\<close>, defined in \<^verbatim>\<open>tensor.cpp\<close>, runs the stages whose
  flag is set, in the order pack, compile, assemble, compute; each flag is read when
  its stage is reached, since an earlier stage may set it.
\<close>

definition evaluate :: "'v::comm_monoid_add TensorBase \<Rightarrow> error + 'v TensorBase" where
  "evaluate t =
     (let t1 = (if needsPack t then TensorBase_pack t else t) in
      case (if needsCompile t1 then TensorBase_compile t1 else Inr t1) of
        Inl e \<Rightarrow> Inl e
      | Inr t2 \<Rightarrow>
          (case (if needsAssemble t2 then TensorBase_assemble t2 else Inr t2) of
             Inl e \<Rightarrow> Inl e
           | Inr t3 \<Rightarrow> (if needsCompute t3 then TensorBase_compute t3 else Inr t3)))"

text \<open>
  Modelled from the spec: \<open>syncValues()\<close>, defined in \<^verbatim>\<open>tensor.cpp\<close>, forces
  \<open>evaluate()\<close> to completion.
\<close>

definition syncValues :: "'v::comm_monoid_add TensorBase \<Rightarrow> error + 'v TensorBase" where
  "syncValues t = evaluate t"

section \<open>The iteration engine\<close>

text \<open>
  \<open>const_iterator::Context\<close>: the coordinate buffer (\<open>order * bufferCapacity\<close> integers),
  the value buffer (\<open>bufferCapacity\<close> values), the current pair and the iteration state
  owned by the generated kernel (\<open>None\<close> is the null pointer). The kernel's state is
  opaque to the iterator; the model represents the blob by a number. The constructor
  allocates the two buffers with \<open>new[]\<close>, which leaves their cells indeterminate; the
  model fills them with zeros, and no statement below depends on a cell the kernel has
  not written. \<open>curVal.first\<close> is resized to \<open>order\<close> zeros.
\<close>

record 'v Context =
  coordBuffer :: "int list"
  valBuffer :: "'v list"
  curVal :: "int list \<times> 'v"
  iterCtx :: "nat option"

definition Context_ctor :: "nat \<Rightarrow> nat \<Rightarrow> nat option \<Rightarrow> 'v::zero Context" where
  "Context_ctor order' bufferCapacity' iterCtx' =
     \<lparr> coordBuffer = replicate (order' * bufferCapacity') 0,
       valBuffer = replicate bufferCapacity' 0,
       curVal = (replicate order' 0, 0),
       iterCtx = iterCtx' \<rparr>"

text \<open>
  \<open>std::shared_ptr<Context>\<close>: the contexts live in a store, each with its use count;
  an address is an index into the store and \<open>None\<close> is the null pointer. A context
  whose count drops to zero is destroyed; its cell stays behind, unreferenced.
\<close>

type_synonym 'v heap = "('v Context \<times> nat) list"

definition make_shared :: "'v heap \<Rightarrow> 'v Context \<Rightarrow> 'v heap \<times> nat" where
  "make_shared h c = (h @ [(c, 1)], length h)"

definition use_count :: "'v heap \<Rightarrow> nat option \<Rightarrow> nat" where
  "use_count h p =
     (case p of None \<Rightarrow> 0 | Some a \<Rightarrow> if a < length h then snd (h ! a) else 0)"

definition deref_ctx :: "'v heap \<Rightarrow> nat option \<Rightarrow> error + 'v Context" where
  "deref_ctx h p =
     (case p of
        None \<Rightarrow> Inl undefined_behavior
      | Some a \<Rightarrow> if a < length h then Inr (fst (h ! a)) else Inl undefined_behavior)"

definition store_ctx :: "'v heap \<Rightarrow> nat \<Rightarrow> 'v Context \<Rightarrow> 'v heap" where
  "store_ctx h a c = h[a := (c, snd (h ! a))]"

definition retain :: "'v heap \<Rightarrow> nat option \<Rightarrow> 'v heap" where
  "retain h p =
     (case p of None \<Rightarrow> h | Some a \<Rightarrow> h[a := (fst (h ! a), Suc (snd (h ! a)))])"

definition release :: "'v heap \<Rightarrow> nat option \<Rightarrow> 'v heap" where
  "release h p =
     (case p of None \<Rightarrow> h | Some a \<Rightarrow> h[a := (fst (h ! a), snd (h ! a) - 1)])"

text \<open>
  \<open>const_iterator<int, CType>\<close>. \<open>tensor\<close> is the address of the tensor handle and
  \<open>tensorStorage\<close> the storage the kernel reads. \<open>iterFunc\<close>, the pointer to the generated
  iteration kernel, is not a field of the record: it is passed to \<open>advance\<close> and
  \<open>fillBuffer\<close> as their first argument.
\<close>

record 'v const_iterator =
  tensor :: nat
  tensorStorage :: "'v TensorStorage"
  tensorOrder :: nat
  bufferCapacity :: nat
  bufferSize :: int
  bufferPos :: int
  ctx :: "nat option"

text \<open>
  The calling convention of the iteration kernel: from the iteration state, the two
  buffers, the capacity and the storage it returns the new state, the refilled buffers
  and the number of records produced.
\<close>

type_synonym 'v fnptr_t =
  "nat option \<Rightarrow> int list \<Rightarrow> 'v list \<Rightarrow> nat \<Rightarrow> 'v TensorStorage
     \<Rightarrow> (nat option \<times> int list \<times> 'v list) \<times> int"

text \<open>The copy constructor copies every member; copying \<open>ctx\<close> adds a use.\<close>

definition const_iterator_copy ::
  "'v heap \<Rightarrow> 'v const_iterator \<Rightarrow> 'v heap \<times> 'v const_iterator" where
  "const_iterator_copy h iterator =
     (retain h (ctx iterator),
      \<lparr> tensor = tensor iterator,
        tensorStorage = tensorStorage iterator,
        tensorOrder = tensorOrder iterator,
        bufferCapacity = bufferCapacity iterator,
        bufferSize = bufferSize iterator,
        bufferPos = bufferPos iterator,
        ctx = ctx iterator \<rparr>)"

definition isEnd :: "'v const_iterator \<Rightarrow> bool" where
  "isEnd it = (bufferSize it = 0)"

text \<open>\<open>operator*\<close> and \<open>operator->\<close> read \<open>ctx->curVal\<close>.\<close>

definition operator_deref :: "'v heap \<Rightarrow> 'v const_iterator \<Rightarrow> error + (int list \<times> 'v)" where
  "operator_deref h it =
     (case deref_ctx h (ctx it) of Inl e \<Rightarrow> Inl e | Inr c \<Rightarrow> Inr (curVal c))"

text \<open>
  \<open>operator==\<close>: the three conjuncts are evaluated left to right and the evaluation
  stops at the first false one, so the contexts are read only when both iterators
  are on the same tensor and neither is at the end.
\<close>

definition operator_eq ::
  "'v heap \<Rightarrow> 'v const_iterator \<Rightarrow> 'v const_iterator \<Rightarrow> error + bool" where
  "operator_eq h it rhs =
     (if tensor it \<noteq> tensor rhs then Inr False
      else if isEnd it \<noteq> isEnd rhs then Inr False
      else if isEnd it then Inr True
      else (case deref_ctx h (ctx it) of
              Inl e \<Rightarrow> Inl e
            | Inr c \<Rightarrow>
                (case deref_ctx h (ctx rhs) of
                   Inl e \<Rightarrow> Inl e
                 | Inr c' \<Rightarrow> Inr (fst (curVal c) = fst (curVal c')))))"

definition operator_ne ::
  "'v heap \<Rightarrow> 'v const_iterator \<Rightarrow> 'v const_iterator \<Rightarrow> error + bool" where
  "operator_ne h it rhs =
     (case operator_eq h it rhs of Inl e \<Rightarrow> Inl e | Inr b \<Rightarrow> Inr (\<not> b))"

text \<open>
  \<open>fillBuffer\<close> calls the kernel on the context's iteration state and buffers, the
  capacity and the storage; the count it returns becomes \<open>bufferSize\<close>.
\<close>

definition fillBuffer ::
  "'v fnptr_t \<Rightarrow> 'v heap \<Rightarrow> 'v const_iterator \<Rightarrow> error + ('v heap \<times> 'v const_iterator)" where
  "fillBuffer iterFunc h it =
     (case ctx it of
        None \<Rightarrow> Inl undefined_behavior
      | Some a \<Rightarrow>
          if length h \<le> a then Inl undefined_behavior
          else
            (case iterFunc (iterCtx (fst (h ! a))) (coordBuffer (fst (h ! a)))
                    (valBuffer (fst (h ! a))) (bufferCapacity it) (tensorStorage it) of
               ((iterCtx', coordBuffer', valBuffer'), n) \<Rightarrow>
                 Inr (store_ctx h a
                        ((fst (h ! a))\<lparr> coordBuffer := coordBuffer',
                                        valBuffer := valBuffer',
                                        iterCtx := iterCtx' \<rparr>),
                      it\<lparr> bufferSize := n \<rparr>)))"

text \<open>
  The first block of \<open>advance\<close>: when the context is shared (\<open>use_count() > 1\<close>) it is
  cloned before anything is written. The size of the iteration state is read through
  \<open>ctx->iterCtx\<close>, which must not be null; the clone gets a fresh current pair and
  copies of the two buffers (\<open>order * bufferCapacity\<close> integers, \<open>bufferCapacity\<close>
  values) and of the iteration state. Assigning the clone to \<open>ctx\<close> drops one use of
  the shared context.
\<close>

definition clone_if_shared ::
  "'v::zero heap \<Rightarrow> 'v const_iterator \<Rightarrow> error + ('v heap \<times> 'v const_iterator)" where
  "clone_if_shared h it =
     (if 1 < use_count h (ctx it) then
        (case deref_ctx h (ctx it) of
           Inl e \<Rightarrow> Inl e
         | Inr c \<Rightarrow>
             (case iterCtx c of
                None \<Rightarrow> Inl undefined_behavior
              | Some blob \<Rightarrow>
                  if length (coordBuffer c) < tensorOrder it * bufferCapacity it
                     \<or> length (valBuffer c) < bufferCapacity it
                  then Inl undefined_behavior
                  else
                    (case make_shared (release h (ctx it))
                            ((Context_ctor (tensorOrder it) (bufferCapacity it) (Some blob))
                               \<lparr> coordBuffer :=
                                    take (tensorOrder it * bufferCapacity it) (coordBuffer c),
                                  valBuffer := take (bufferCapacity it) (valBuffer c) \<rparr>) of
                       (h', a') \<Rightarrow> Inr (h', it\<lparr> ctx := Some a' \<rparr>))))
      else Inr (h, it))"

text \<open>
  The last two statements of \<open>advance\<close>: \<open>order\<close> integers at offset
  \<open>bufferPos * tensorOrder\<close> of the coordinate buffer and the value at \<open>bufferPos\<close>
  become the current pair.
\<close>

definition load_curVal ::
  "'v heap \<Rightarrow> 'v const_iterator \<Rightarrow> error + ('v heap \<times> 'v const_iterator)" where
  "load_curVal h it =
     (case ctx it of
        None \<Rightarrow> Inl undefined_behavior
      | Some a \<Rightarrow>
          if length h \<le> a \<or> bufferPos it < 0
             \<or> length (coordBuffer (fst (h ! a)))
                  < (nat (bufferPos it) + 1) * tensorOrder it
             \<or> length (valBuffer (fst (h ! a))) \<le> nat (bufferPos it)
          then Inl undefined_behavior
          else
            Inr (store_ctx h a
                   ((fst (h ! a))
                      \<lparr> curVal :=
                          (take (tensorOrder it)
                             (drop (nat (bufferPos it) * tensorOrder it)
                                (coordBuffer (fst (h ! a)))),
                           valBuffer (fst (h ! a)) ! nat (bufferPos it)) \<rparr>),
                 it))"

definition advance ::
  "'v::zero fnptr_t \<Rightarrow> 'v heap \<Rightarrow> 'v const_iterator
     \<Rightarrow> error + ('v heap \<times> 'v const_iterator)" where
  "advance iterFunc h it =
     (case clone_if_shared h it of
        Inl e \<Rightarrow> Inl e
      | Inr (h1, it1) \<Rightarrow>
          (case (if bufferSize it1 \<le> bufferPos it1 + 1 then
                   (case fillBuffer iterFunc h1 (it1\<lparr> bufferPos := bufferPos it1 + 1 \<rparr>) of
                      Inl e \<Rightarrow> Inl e
                    | Inr (h2, it2) \<Rightarrow> Inr (h2, it2\<lparr> bufferPos := 0 \<rparr>))
                 else Inr (h1, it1\<lparr> bufferPos := bufferPos it1 + 1 \<rparr>)) of
             Inl e \<Rightarrow> Inl e
           | Inr (h3, it3) \<Rightarrow> load_curVal h3 it3))"

text \<open>
  Modelled from the spec: the generated iteration kernel \<open>_shim_iterate\<close> is not among
  the sources. Called with a null state it starts at the first component; it writes
  the next components, at most \<open>capacity\<close> of them, to the front of the two buffers
  (the coordinates of the \<open>i\<close>-th record at offset \<open>i * order\<close>), moves its state past
  them and returns their number, 0 meaning exhausted.
\<close>

definition shim_iterate :: "'v fnptr_t" where
  "shim_iterate state coords vals capacity st =
     (let pos = (case state of None \<Rightarrow> 0 | Some p \<Rightarrow> p);
          batch = take capacity (drop pos st)
      in ((Some (pos + length batch),
           concat (map fst batch) @ drop (length (concat (map fst batch))) coords,
           map snd batch @ drop (length batch) vals),
          int (length batch)))"

text \<open>
  The private constructor \<open>const_iterator(tensor, isEnd)\<close>: capacity 100, size and
  position 0, a null context; unless the end iterator is asked for, a context is
  allocated, the kernel of the tensor's format is looked up and \<open>advance\<close> loads
  the first component.
\<close>

definition const_iterator_ctor ::
  "'v::zero heap \<Rightarrow> 'v TensorBase \<Rightarrow> bool \<Rightarrow> error + ('v heap \<times> 'v const_iterator)" where
  "const_iterator_ctor h t isEnd' =
     (let it = \<lparr> tensor = handle t, tensorStorage = getStorage t,
                  tensorOrder = getOrder t, bufferCapacity = 100,
                  bufferSize = 0, bufferPos = 0, ctx = None \<rparr>
      in if \<not> isEnd' then
           (case make_shared h (Context_ctor (tensorOrder it) (bufferCapacity it) None) of
              (h1, a) \<Rightarrow> advance shim_iterate h1 (it\<lparr> ctx := Some a \<rparr>))
         else Inr (h, it))"

text \<open>
  \<open>iterator_wrapper\<close> holds the tensor; \<open>begin()\<close> and \<open>end()\<close> construct the iterators.
  The non-const \<open>TensorBase::iterator()\<close> calls \<open>syncValues()\<close> first; the const
  overload does not. \<open>iteratorTyped\<close> has the same two bodies.
\<close>

datatype 'v iterator_wrapper = iterator_wrapper (wrapped: "'v TensorBase")

definition wrapper_begin ::
  "'v::zero heap \<Rightarrow> 'v iterator_wrapper \<Rightarrow> error + ('v heap \<times> 'v const_iterator)" where
  "wrapper_begin h w = const_iterator_ctor h (wrapped w) False"

definition wrapper_end ::
  "'v::zero heap \<Rightarrow> 'v iterator_wrapper \<Rightarrow> error + ('v heap \<times> 'v const_iterator)" where
  "wrapper_end h w = const_iterator_ctor h (wrapped w) True"

definition TensorBase_iterator_const :: "'v TensorBase \<Rightarrow> 'v iterator_wrapper" where
  "TensorBase_iterator_const t = iterator_wrapper t"

definition TensorBase_iterator ::
  "'v::comm_monoid_add TensorBase \<Rightarrow> error + ('v TensorBase \<times> 'v iterator_wrapper)" where
  "TensorBase_iterator t =
     (case syncValues t of
        Inl e \<Rightarrow> Inl e
      | Inr t' \<Rightarrow> Inr (t', iterator_wrapper t'))"

text \<open>
  \<open>Tensor<CType>::begin\<close> and \<open>end\<close>, const and non-const: each goes through the
  \<open>iterator()\<close> overload of the same constness. The non-const ones also return the
  tensor as \<open>syncValues()\<close> left it.
\<close>

definition Tensor_begin_const ::
  "'v::zero heap \<Rightarrow> 'v TensorBase \<Rightarrow> error + ('v heap \<times> 'v const_iterator)" where
  "Tensor_begin_const h t = wrapper_begin h (TensorBase_iterator_const t)"

definition Tensor_end_const ::
  "'v::zero heap \<Rightarrow> 'v TensorBase \<Rightarrow> error + ('v heap \<times> 'v const_iterator)" where
  "Tensor_end_const h t = wrapper_end h (TensorBase_iterator_const t)"

definition Tensor_begin ::
  "'v::comm_monoid_add heap \<Rightarrow> 'v TensorBase
     \<Rightarrow> error + ('v TensorBase \<times> 'v heap \<times> 'v const_iterator)" where
  "Tensor_begin h t =
     (case TensorBase_iterator t of
        Inl e \<Rightarrow> Inl e
      | Inr (t', w) \<Rightarrow>
          (case wrapper_begin h w of
             Inl e \<Rightarrow> Inl e
           | Inr (h', it) \<Rightarrow> Inr (t', h', it)))"

definition Tensor_end ::
  "'v::comm_monoid_add heap \<Rightarrow> 'v TensorBase
     \<Rightarrow> error + ('v TensorBase \<times> 'v heap \<times> 'v const_iterator)" where
  "Tensor_end h t =
     (case TensorBase_iterator t of
        Inl e \<Rightarrow> Inl e
      | Inr (t', w) \<Rightarrow>
          (case wrapper_end h w of
             Inl e \<Rightarrow> Inl e
           | Inr (h', it) \<Rightarrow> Inr (t', h', it)))"

text \<open>
  A range-based \<open>for\<close> loop over a tensor, \<open>for (auto& v : T) body\<close>: while the
  iterator differs from the end iterator, the body runs on the current pair and the
  iterator is advanced with the pre-increment (\<open>advance\<close>; the copy that \<open>operator++\<close>
  returns is dropped at once). The body either leaves the function with a result
  (\<open>Inl\<close>) or continues with the updated local state (\<open>Inr\<close>); it may also fail. The
  loop need not end for arbitrary iterators, so not returning is the value \<open>None\<close>.
\<close>

partial_function (option) range_for ::
  "(int list \<times> 'v \<Rightarrow> 'a \<Rightarrow> error + ('r + 'a)) \<Rightarrow> 'v::zero heap \<Rightarrow> 'v const_iterator
     \<Rightarrow> 'v const_iterator \<Rightarrow> 'a \<Rightarrow> (error + ('r + 'a)) option" where
  "range_for body h it end' acc =
     (case operator_ne h it end' of
        Inl e \<Rightarrow> Some (Inl e)
      | Inr continue \<Rightarrow>
          if \<not> continue then Some (Inr (Inr acc))
          else
            (case operator_deref h it of
               Inl e \<Rightarrow> Some (Inl e)
             | Inr v \<Rightarrow>
                 (case body v acc of
                    Inl e \<Rightarrow> Some (Inl e)
                  | Inr (Inl r) \<Rightarrow> Some (Inr (Inl r))
                  | Inr (Inr acc') \<Rightarrow>
                      (case advance shim_iterate h it of
                         Inl e \<Rightarrow> Some (Inl e)
                       | Inr (h', it') \<Rightarrow> range_for body h' it' end' acc'))))"

declare range_for.simps [code]

section \<open>Reading and transposing\<close>

text \<open>
  \<open>TensorBase::at\<close>: the two assertions, \<open>syncValues()\<close>, then a range-based loop over
  \<open>iterate<CType>(*this)\<close> that returns the value of the first component whose
  coordinate equals the argument, and \<open>0\<close> when the loop ends without one. The loop
  takes \<open>begin()\<close> and \<open>end()\<close> of a non-const \<open>Tensor<CType>\<close>, so each of the two calls
  \<open>syncValues()\<close> again. The iterators are local to the call; they are created in an
  empty store and dropped on return. The result is the value together with the tensor
  as the call leaves it.
\<close>

definition TensorBase_at ::
  "Datatype \<Rightarrow> int list \<Rightarrow> 'v::comm_monoid_add TensorBase
     \<Rightarrow> (error + ('v \<times> 'v TensorBase)) option" where
  "TensorBase_at CType coordinate t =
     (if length coordinate \<noteq> getOrder t then
        Some (Inl (taco_uassert [Str ''Wrong number of indices'']))
      else if getComponentType t \<noteq> CType then
        Some (Inl (taco_uassert
          [Str (''Cannot get a value of type '' @ [CHR 0x27]), Ty CType,
           Str (CHR 0x27 # '' ''), Str ''from a tensor with component type '',
           Ty (getComponentType t)]))
      else
        (case syncValues t of
           Inl e \<Rightarrow> Some (Inl e)
         | Inr t1 \<Rightarrow>
             (case Tensor_begin [] t1 of
                Inl e \<Rightarrow> Some (Inl e)
              | Inr (t2, h, it) \<Rightarrow>
                  (case Tensor_end h t2 of
                     Inl e \<Rightarrow> Some (Inl e)
                   | Inr (t3, h', end') \<Rightarrow>
                       (case range_for
                               (\<lambda>v (u::unit).
                                  if fst v = coordinate then Inr (Inl (snd v))
                                  else Inr (Inr u))
                               h' it end' () of
                          None \<Rightarrow> None
                        | Some (Inl e) \<Rightarrow> Some (Inl e)
                        | Some (Inr (Inl r)) \<Rightarrow> Some (Inr (r, t3))
                        | Some (Inr (Inr u)) \<Rightarrow> Some (Inr (0, t3)))))))"

text \<open>
  \<open>ScalarAccess<CType>\<close> holds the tensor and the indices. \<open>Tensor<CType>::operator()\<close>
  on a vector of integers checks the number of indices and builds it; assigning a
  scalar to it is \<open>insert\<close>, converting it to \<open>CType\<close> is \<open>at\<close>.
\<close>

record ScalarAccess =
  accessed :: nat
  indices :: "int list"

definition Tensor_call :: "int list \<Rightarrow> 'v TensorBase \<Rightarrow> error + ScalarAccess" where
  "Tensor_call indices' t =
     (if length indices' \<noteq> getOrder t then
        Inl (taco_uassert
          [Str ''A tensor of order '', Num (int (getOrder t)),
           Str '' must be indexed with '', Num (int (getOrder t)),
           Str '' variables, but is indexed with:  '', Ints indices'])
      else Inr \<lparr> accessed = handle t, indices = indices' \<rparr>)"

definition ScalarAccess_assign ::
  "Datatype \<Rightarrow> ScalarAccess \<Rightarrow> 'v \<Rightarrow> 'v TensorBase \<Rightarrow> error + 'v TensorBase" where
  "ScalarAccess_assign CType access scalar t =
     TensorBase_insert CType (indices access) scalar t"

definition ScalarAccess_read ::
  "Datatype \<Rightarrow> ScalarAccess \<Rightarrow> 'v::comm_monoid_add TensorBase
     \<Rightarrow> (error + ('v \<times> 'v TensorBase)) option" where
  "ScalarAccess_read CType access t = TensorBase_at CType (indices access) t"

text \<open>
  \<open>Tensor<CType>::transpose(name, newModeOrdering, format)\<close>. Indexing a vector
  outside its range has no defined behaviour. The new dimensions and each new
  coordinate are gathered in the new mode order; the loop runs over the const tensor
  (\<open>begin() const\<close>, \<open>end() const\<close>: no \<open>syncValues()\<close>) and inserts every component
  into the new tensor, which is packed and returned. The first argument is the address
  of the new handle.
\<close>

definition at_index :: "'a list \<Rightarrow> int \<Rightarrow> error + 'a" where
  "at_index xs i =
     (if 0 \<le> i \<and> nat i < length xs then Inr (xs ! nat i) else Inl undefined_behavior)"

fun gather :: "'a list \<Rightarrow> int list \<Rightarrow> error + 'a list" where
  "gather xs [] = Inr []"
| "gather xs (mode # modes) =
     (case at_index xs mode of
        Inl e \<Rightarrow> Inl e
      | Inr x \<Rightarrow>
          (case gather xs modes of
             Inl e \<Rightarrow> Inl e
           | Inr ys \<Rightarrow> Inr (x # ys)))"

definition Tensor_transpose ::
  "nat \<Rightarrow> string \<Rightarrow> Datatype \<Rightarrow> int list \<Rightarrow> Format \<Rightarrow> 'v::comm_monoid_add TensorBase
     \<Rightarrow> (error + 'v TensorBase) option" where
  "Tensor_transpose p nm CType newModeOrdering fmt t =
     (case gather (getDimensions t) newModeOrdering of
        Inl e \<Rightarrow> Some (Inl e)
      | Inr newDimensions \<Rightarrow>
          (case Tensor_begin_const [] t of
             Inl e \<Rightarrow> Some (Inl e)
           | Inr (h, it) \<Rightarrow>
               (case Tensor_end_const h t of
                  Inl e \<Rightarrow> Some (Inl e)
                | Inr (h', end') \<Rightarrow>
                    (case range_for
                            (\<lambda>v newTensor.
                               case gather (fst v) newModeOrdering of
                                 Inl e \<Rightarrow> Inl e
                               | Inr newCoordinate \<Rightarrow>
                                   (case TensorBase_insert CType newCoordinate (snd v)
                                           newTensor of
                                      Inl e \<Rightarrow> Inl e
                                    | Inr newTensor' \<Rightarrow> Inr (Inr newTensor')))
                            h' it end' (Tensor_ctor p nm CType newDimensions fmt) of
                       None \<Rightarrow> None
                     | Some (Inl e) \<Rightarrow> Some (Inl e)
                     | Some (Inr (Inl newTensor)) \<Rightarrow> Some (Inr (TensorBase_pack newTensor))
                     | Some (Inr (Inr newTensor)) \<Rightarrow>
                         Some (Inr (TensorBase_pack newTensor))))))"

text \<open>
  \<open>getCSRArrays\<close>. The index arrays and the value array of a storage are reached through
  \<open>storage.getIndex().getModeIndex(m).getIndexArray(k)\<close> and \<open>storage.getValues()\<close>, which
  are defined outside the sources; the two accessors are arguments of the model. An
  index array carries the type of its entries. \<open>Const\<close> names a message constant of
  \<^verbatim>\<open>taco/error/error_messages.h\<close>.
\<close>

datatype Array = Array (getType: Datatype) (getData: "int list")

definition type_int :: Datatype where
  "type_int = Datatype KInt 32"

definition getCSRArrays ::
  "('v TensorStorage \<Rightarrow> nat \<Rightarrow> nat \<Rightarrow> Array) \<Rightarrow> ('v TensorStorage \<Rightarrow> 'v list)
     \<Rightarrow> 'v TensorBase \<Rightarrow> error + (int list \<times> int list \<times> 'v list)" where
  "getCSRArrays getIndexArray getValues t =
     (if getFormat t \<noteq> CSR then
        Inl (taco_uassert
          [Str ''The tensor '', Str (getName t), Str '' is not defined in the CSR format''])
      else if getType (getIndexArray (getStorage t) 1 0) \<noteq> type_int then
        Inl (taco_uassert [Const ''error::type_mismatch''])
      else if getType (getIndexArray (getStorage t) 1 1) \<noteq> type_int then
        Inl (taco_uassert [Const ''error::type_mismatch''])
      else Inr (getData (getIndexArray (getStorage t) 1 0),
                getData (getIndexArray (getStorage t) 1 1),
                getValues (getStorage t)))"

section \<open>Notions used in the statements\<close>

subsection \<open>States of a tensor\<close>

text \<open>
  No stage of the pipeline is pending: all four need-flags are false.
\<close>

definition no_stage_pending :: "'v TensorBase \<Rightarrow> bool" where
  "no_stage_pending t =
     (\<not> needsPack t \<and> \<not> needsCompile t \<and> \<not> needsAssemble t \<and> \<not> needsCompute t)"

text \<open>
  The coordinate buffer as the constructor leaves it and as \<open>insert\<close> keeps it: no more
  is used than the vector holds, and a record is \<open>order\<close> integers and one value.
\<close>

definition buffer_ok :: "'v TensorBase \<Rightarrow> bool" where
  "buffer_ok t =
     (coordinateBufferUsed t \<le> coordinateBuffer_size t \<and>
      coordinateSize t = getOrder t * sizeof_int + getNumBytes (getComponentType t))"

text \<open>
  The storage of a packed tensor: every stored coordinate has as many entries as the
  tensor has modes, and no coordinate is stored twice.
\<close>

definition well_formed_storage :: "'v TensorBase \<Rightarrow> bool" where
  "well_formed_storage t =
     (list_all (\<lambda>r. length (fst r) = getOrder t) (storage t) \<and>
      distinct (map fst (storage t)))"

text \<open>
  The value stored at a coordinate, if the coordinate is stored.
\<close>

definition stored :: "'v TensorBase \<Rightarrow> int list \<Rightarrow> 'v option" where
  "stored t coordinate = map_of (storage t) coordinate"

text \<open>
  What \<open>insert\<close> leaves alone: everything but the coordinate buffer and \<open>needsPack\<close>.
\<close>

definition same_tensor_type :: "'v TensorBase \<Rightarrow> 'v TensorBase \<Rightarrow> bool" where
  "same_tensor_type t t' =
     (dimensions t' = dimensions t \<and> ctype t' = ctype t \<and> format t' = format t \<and>
      name t' = name t \<and> handle t' = handle t \<and> assignment t' = assignment t \<and>
      storage t' = storage t \<and> needsCompile t' = needsCompile t \<and>
      needsAssemble t' = needsAssemble t \<and> needsCompute t' = needsCompute t)"

subsection \<open>Sequences of insertions\<close>

text \<open>
  A sequence of insertions, each a call of \<open>insert\<close> or of \<open>setFromComponents\<close>, and the
  components it inserts, in order.
\<close>

datatype 'v insertion = Insert "int list" 'v | SetFromComponents "(int list \<times> 'v) list"

fun inserted :: "'v insertion \<Rightarrow> (int list \<times> 'v) list" where
  "inserted (Insert coordinate v) = [(coordinate, v)]"
| "inserted (SetFromComponents cs) = cs"

fun apply_insertion ::
  "Datatype \<Rightarrow> 'v insertion \<Rightarrow> 'v TensorBase \<Rightarrow> error + 'v TensorBase" where
  "apply_insertion CType (Insert coordinate v) t = TensorBase_insert CType coordinate v t"
| "apply_insertion CType (SetFromComponents cs) t = setFromComponents CType cs t"

fun apply_insertions ::
  "Datatype \<Rightarrow> 'v insertion list \<Rightarrow> 'v TensorBase \<Rightarrow> error + 'v TensorBase" where
  "apply_insertions CType [] t = Inr t"
| "apply_insertions CType (i # is) t =
     (case apply_insertion CType i t of
        Inl e \<Rightarrow> Inl e
      | Inr t' \<Rightarrow> apply_insertions CType is t')"

text \<open>\<open>T(indices) = v\<close> for each value of a list, in order.\<close>

fun assign_all ::
  "Datatype \<Rightarrow> ScalarAccess \<Rightarrow> 'v list \<Rightarrow> 'v TensorBase \<Rightarrow> error + 'v TensorBase" where
  "assign_all CType access [] t = Inr t"
| "assign_all CType access (v # vs) t =
     (case ScalarAccess_assign CType access v t of
        Inl e \<Rightarrow> Inl e
      | Inr t' \<Rightarrow> assign_all CType access vs t')"

subsection \<open>Loops over the components\<close>

text \<open>What a loop over the components does, on the list of components.\<close>

fun run_body ::
  "('x \<Rightarrow> 'a \<Rightarrow> error + ('r + 'a)) \<Rightarrow> 'x list \<Rightarrow> 'a \<Rightarrow> error + ('r + 'a)" where
  "run_body body [] acc = Inr (Inr acc)"
| "run_body body (x # xs) acc =
     (case body x acc of
        Inl e \<Rightarrow> Inl e
      | Inr (Inl r) \<Rightarrow> Inr (Inl r)
      | Inr (Inr acc') \<Rightarrow> run_body body xs acc')"

text \<open>
  The components a loop over the const tensor yields, collected in order:
  \<open>for (auto& v : T) out.push_back(v)\<close>.
\<close>

definition yielded :: "'v::zero TensorBase \<Rightarrow> (error + (int list \<times> 'v) list) option" where
  "yielded t =
     (case Tensor_begin_const [] t of
        Inl e \<Rightarrow> Some (Inl e)
      | Inr (h, it) \<Rightarrow>
          (case Tensor_end_const h t of
             Inl e \<Rightarrow> Some (Inl e)
           | Inr (h', end') \<Rightarrow>
               (case range_for (\<lambda>v out. Inr (Inr (out @ [v]))) h' it end' [] of
                  None \<Rightarrow> None
                | Some (Inl e) \<Rightarrow> Some (Inl e)
                | Some (Inr (Inl out)) \<Rightarrow> Some (Inr out)
                | Some (Inr (Inr out)) \<Rightarrow> Some (Inr out))))"

text \<open>
  The components a loop over the non-const tensor yields, with the tensor as the loop
  leaves it. The loop takes \<open>begin()\<close> and then \<open>end()\<close> of the tensor, here the non-const
  overloads, each of which calls \<open>syncValues()\<close> first.
\<close>

definition yielded_nonconst ::
  "'v::comm_monoid_add TensorBase
     \<Rightarrow> (error + ((int list \<times> 'v) list \<times> 'v TensorBase)) option" where
  "yielded_nonconst t =
     (case Tensor_begin [] t of
        Inl e \<Rightarrow> Some (Inl e)
      | Inr (t1, h, it) \<Rightarrow>
          (case Tensor_end h t1 of
             Inl e \<Rightarrow> Some (Inl e)
           | Inr (t2, h', end') \<Rightarrow>
               (case range_for (\<lambda>v out. Inr (Inr (out @ [v]))) h' it end' [] of
                  None \<Rightarrow> None
                | Some (Inl e) \<Rightarrow> Some (Inl e)
                | Some (Inr (Inl out)) \<Rightarrow> Some (Inr (out, t2))
                | Some (Inr (Inr out)) \<Rightarrow> Some (Inr (out, t2)))))"

text \<open>The coordinate (or the dimensions) rearranged in the new mode order.\<close>

definition reordered :: "int list \<Rightarrow> 'a list \<Rightarrow> 'a list" where
  "reordered newModeOrdering xs = map (\<lambda>mode. xs ! nat mode) newModeOrdering"

subsection \<open>One step of an iterator on its context\<close>

text \<open>
  What \<open>advance\<close> does to the context it ends up writing, apart from where that context
  lives: \<open>cloned\<close> is the copy made of a shared context, \<open>step_ctx\<close> the refill (when
  the batch is exhausted) and the load of the current pair. \<open>yield_after_advance\<close> is
  what an iterator shows after its next \<open>advance\<close>: size, position and context.
\<close>

definition cloned :: "'v::zero Context \<Rightarrow> 'v const_iterator \<Rightarrow> error + 'v Context" where
  "cloned c it =
     (case iterCtx c of
        None \<Rightarrow> Inl undefined_behavior
      | Some blob \<Rightarrow>
          if length (coordBuffer c) < tensorOrder it * bufferCapacity it
             \<or> length (valBuffer c) < bufferCapacity it
          then Inl undefined_behavior
          else Inr ((Context_ctor (tensorOrder it) (bufferCapacity it) (Some blob))
                      \<lparr> coordBuffer :=
                           take (tensorOrder it * bufferCapacity it) (coordBuffer c),
                         valBuffer := take (bufferCapacity it) (valBuffer c) \<rparr>))"

definition step_ctx ::
  "'v::zero fnptr_t \<Rightarrow> bool \<Rightarrow> 'v Context \<Rightarrow> 'v const_iterator
     \<Rightarrow> error + ('v Context \<times> 'v const_iterator)" where
  "step_ctx iterFunc shared c it =
     (case (if shared then cloned c it else Inr c) of
        Inl e \<Rightarrow> Inl e
      | Inr c1 \<Rightarrow>
          (case (if bufferSize it \<le> bufferPos it + 1 then
                   (case iterFunc (iterCtx c1) (coordBuffer c1) (valBuffer c1)
                           (bufferCapacity it) (tensorStorage it) of
                      ((s', cb', vb'), n) \<Rightarrow>
                        (c1\<lparr> coordBuffer := cb', valBuffer := vb', iterCtx := s' \<rparr>,
                         it\<lparr> bufferSize := n, bufferPos := 0 \<rparr>))
                 else (c1, it\<lparr> bufferPos := bufferPos it + 1 \<rparr>)) of
             (c2, it2) \<Rightarrow>
               if bufferPos it2 < 0
                  \<or> length (coordBuffer c2) < (nat (bufferPos it2) + 1) * tensorOrder it
                  \<or> length (valBuffer c2) \<le> nat (bufferPos it2)
               then Inl undefined_behavior
               else Inr (c2\<lparr> curVal :=
                               (take (tensorOrder it)
                                  (drop (nat (bufferPos it2) * tensorOrder it) (coordBuffer c2)),
                                valBuffer c2 ! nat (bufferPos it2)) \<rparr>,
                         it2)))"

definition yield_after_advance ::
  "'v::zero fnptr_t \<Rightarrow> 'v heap \<Rightarrow> 'v const_iterator
     \<Rightarrow> error + (int \<times> int \<times> (error + 'v Context))" where
  "yield_after_advance iterFunc h it =
     (case advance iterFunc h it of
        Inl e \<Rightarrow> Inl e
      | Inr (h', it') \<Rightarrow> Inr (bufferSize it', bufferPos it', deref_ctx h' (ctx it')))"

text \<open>
  The coordinate of the current pair.
\<close>

definition current_coordinate :: "'v heap \<Rightarrow> 'v const_iterator \<Rightarrow> error + int list" where
  "current_coordinate h it =
     (case operator_deref h it of Inl e \<Rightarrow> Inl e | Inr v \<Rightarrow> Inr (fst v))"

text \<open>
  The iterator, with context \<open>c\<close>, stands at position \<open>k\<close> of the storage \<open>st\<close>: the
  buffers hold the batch \<open>st[q ..< q + s]\<close>, the kernel's state is past it, and either
  \<open>k\<close> lies in the batch and the current pair is \<open>st ! k\<close>, or the storage is
  exhausted and the iterator is at the end.
\<close>

definition positioned ::
  "'v TensorStorage \<Rightarrow> 'v Context \<Rightarrow> 'v const_iterator \<Rightarrow> nat \<Rightarrow> bool" where
  "positioned st c it k =
     (\<exists>q s.
        tensorStorage it = st \<and> (\<forall>r \<in> set st. length (fst r) = tensorOrder it) \<and>
        0 < bufferCapacity it \<and>
        length (coordBuffer c) = tensorOrder it * bufferCapacity it \<and>
        length (valBuffer c) = bufferCapacity it \<and>
        bufferSize it = int s \<and> s \<le> bufferCapacity it \<and>
        iterCtx c = Some (q + s) \<and> q + s \<le> length st \<and>
        take (tensorOrder it * s) (coordBuffer c) = concat (map fst (take s (drop q st))) \<and>
        take s (valBuffer c) = map snd (take s (drop q st)) \<and>
        (if k < length st
         then q \<le> k \<and> k < q + s \<and> bufferPos it = int (k - q) \<and> curVal c = st ! k
         else k = length st \<and> s = 0 \<and> q = length st))"

subsection \<open>Example tensors and iterators\<close>

text \<open>
  A tensor of order 0 with a 32-bit component type, whose buffer of \<open>n\<close> records is full.
\<close>

definition full_scalar_buffer :: "nat \<Rightarrow> int TensorBase" where
  "full_scalar_buffer n =
     (Tensor_ctor 0 ''A'' (Datatype KInt 32) [] (Format [] []))
       \<lparr> coordinateBuffer_size := 4 * n, coordinateBufferUsed := 4 * n,
         coordinateBuffer_records := replicate n ([], 0) \<rparr>"

text \<open>
  A 2 x 2 matrix as constructed; the same after two insertions at \<open>(0, 1)\<close>; and the
  second one after \<open>pack()\<close>.
\<close>

definition matrix_2x2 :: "int TensorBase" where
  "matrix_2x2 = Tensor_ctor 1 ''A'' (Datatype KInt 32) [2, 2] CSR"

definition pending_matrix :: "int TensorBase" where
  "pending_matrix =
     matrix_2x2 \<lparr> coordinateBuffer_size := 24,
                  coordinateBuffer_records := [([0, 1], 5), ([0, 1], 6)],
                  coordinateBufferUsed := 24, needsPack := True \<rparr>"

definition packed_matrix :: "int TensorBase" where
  "packed_matrix =
     matrix_2x2 \<lparr> storage := [([0, 1], 11)], coordinateBuffer_size := 24 \<rparr>"

text \<open>
  Packed matrices with two stored components, on two different handles; a second
  handle of the first of them, that is, a copy of the \<open>Tensor\<close> object, which refers
  to the same content from another address; a 2 x 3 matrix; and an empty matrix in
  the CSC format.
\<close>

definition example_matrix :: "int TensorBase" where
  "example_matrix =
     (Tensor_ctor 1 ''A'' (Datatype KInt 32) [2, 2] CSR)
       \<lparr> storage := [([0, 1], 5), ([1, 0], 7)] \<rparr>"

definition other_matrix :: "int TensorBase" where
  "other_matrix =
     (Tensor_ctor 2 ''B'' (Datatype KInt 32) [2, 2] CSR)
       \<lparr> storage := [([0, 1], 5), ([1, 0], 7)] \<rparr>"

definition example_alias :: "int TensorBase" where
  "example_alias = example_matrix \<lparr> handle := 4 \<rparr>"

definition wide_matrix :: "int TensorBase" where
  "wide_matrix =
     (Tensor_ctor 1 ''A'' (Datatype KInt 32) [2, 3] CSR)
       \<lparr> storage := [([0, 1], 5), ([1, 2], 7)] \<rparr>"

definition csc_matrix :: "int TensorBase" where
  "csc_matrix = Tensor_ctor 3 ''C'' (Datatype KInt 32) [2, 2] CSC"

text \<open>
  The tensor that \<open>transpose\<close> constructs for a 2 x 2 matrix in the CSC format, before
  any component is inserted into it.
\<close>

definition transposed_pending :: "int TensorBase" where
  "transposed_pending = Tensor_ctor 7 ''At'' (Datatype KInt 32) [2, 2] CSC"

text \<open>
  Iterators over these: \<open>begin()\<close> and \<open>end()\<close> of the example matrix, created in an empty
  store, the \<open>end()\<close> of the other matrix and of the second handle, and a copy of the
  \<open>begin()\<close> iterator that has been advanced once.
\<close>

definition example_heap :: "int heap" where
  "example_heap = fst (projr (Tensor_begin_const [] example_matrix))"

definition example_begin :: "int const_iterator" where
  "example_begin = snd (projr (Tensor_begin_const [] example_matrix))"

definition example_end :: "int const_iterator" where
  "example_end = snd (projr (Tensor_end_const [] example_matrix))"

definition other_end :: "int const_iterator" where
  "other_end = snd (projr (Tensor_end_const [] other_matrix))"

definition alias_end :: "int const_iterator" where
  "alias_end = snd (projr (Tensor_end_const [] example_alias))"

definition advanced_heap :: "int heap" where
  "advanced_heap =
     fst (projr (advance shim_iterate (fst (const_iterator_copy example_heap example_begin))
                   (snd (const_iterator_copy example_heap example_begin))))"

definition advanced_copy :: "int const_iterator" where
  "advanced_copy =
     snd (projr (advance shim_iterate (fst (const_iterator_copy example_heap example_begin))
                   (snd (const_iterator_copy example_heap example_begin))))"

definition packed_heap :: "int heap" where
  "packed_heap = fst (projr (Tensor_begin_const [] packed_matrix))"

definition packed_begin :: "int const_iterator" where
  "packed_begin = snd (projr (Tensor_begin_const [] packed_matrix))"

section \<open>Growth of the coordinate buffer\<close>

lemma insert_size:
  assumes "TensorBase_insert CType coordinate v t = Inr t'"
  shows "coordinateBuffer_size t' =
           (if size_t_sub (coordinateBuffer_size t) (coordinateBufferUsed t)
                 < coordinateSize t
            then coordinateBuffer_size t + coordinateSize t
            else coordinateBuffer_size t)"
    and "coordinateSize t' = coordinateSize t"
  using assms by (auto simp: TensorBase_insert_def Let_def split: if_splits)

lemma setFromComponents_size_mono:
  "setFromComponents CType cs t = Inr t' \<Longrightarrow>
     coordinateBuffer_size t \<le> coordinateBuffer_size t'"
proof (induction cs arbitrary: t)
  case Nil
  then show ?case by simp
next
  case (Cons c cs)
  from Cons.prems obtain t1 where
    step: "TensorBase_insert CType (fst c) (snd c) t = Inr t1" and
    rest: "setFromComponents CType cs t1 = Inr t'"
    by (auto split: sum.splits)
  have "coordinateBuffer_size t \<le> coordinateBuffer_size t1"
    using insert_size(1) [OF step] by (simp split: if_splits)
  also have "\<dots> \<le> coordinateBuffer_size t'"
    by (rule Cons.IH [OF rest])
  finally show ?case .
qed

lemma insert_full_scalar_buffer:
  "TensorBase_insert (Datatype KInt 32) [] v (full_scalar_buffer n) =
     Inr ((full_scalar_buffer n)
            \<lparr> coordinateBuffer_size := 4 * n + 4,
              coordinateBuffer_records := replicate n ([], 0) @ [([], v)],
              coordinateBufferUsed := 4 * n + 4,
              needsPack := True \<rparr>)"
  by (simp add: TensorBase_insert_def full_scalar_buffer_def Tensor_ctor_def
      getOrder_def getComponentType_def size_t_sub_def sizeof_int_def Let_def)

lemma insert_growth_example:
  "map (\<lambda>n. case TensorBase_insert (Datatype KInt 32) [] 7 (full_scalar_buffer n) of
               Inr t' \<Rightarrow> (coordinateBuffer_size (full_scalar_buffer n),
                          coordinateBuffer_size t')
             | Inl e \<Rightarrow> (0, 0)) [1, 2, 3, 100]
   = [(4, 8), (8, 12), (12, 16), (400, 404)]"
  by (simp add: insert_full_scalar_buffer) (simp add: full_scalar_buffer_def)

text \<open>
  C6, as stated: when the remaining capacity is insufficient the buffer grows
  geometrically, that is, there is a factor \<open>c > 1\<close> such that every growing insert
  leaves a buffer of at least \<open>c\<close> times the previous size. The code refutes it: the
  resize adds one record, so on a full buffer of \<open>n\<close> records the ratio is
  \<open>(n + 1) / n\<close>, below any fixed factor for \<open>n\<close> large enough.
\<close>

theorem insert_growth_not_geometric:
  "\<not> (\<exists>c::real. 1 < c \<and>
        (\<forall>(t::int TensorBase) CType coordinate v t'.
            TensorBase_insert CType coordinate v t = Inr t' \<and>
            size_t_sub (coordinateBuffer_size t) (coordinateBufferUsed t)
              < coordinateSize t
            \<longrightarrow> c * real (coordinateBuffer_size t) \<le> real (coordinateBuffer_size t')))"
proof
  assume "\<exists>c::real. 1 < c \<and>
        (\<forall>(t::int TensorBase) CType coordinate v t'.
            TensorBase_insert CType coordinate v t = Inr t' \<and>
            size_t_sub (coordinateBuffer_size t) (coordinateBufferUsed t)
              < coordinateSize t
            \<longrightarrow> c * real (coordinateBuffer_size t) \<le> real (coordinateBuffer_size t'))"
  then obtain c :: real where c: "1 < c" and
    geo: "\<And>(t::int TensorBase) CType coordinate v t'.
            TensorBase_insert CType coordinate v t = Inr t' \<Longrightarrow>
            size_t_sub (coordinateBuffer_size t) (coordinateBufferUsed t)
              < coordinateSize t \<Longrightarrow>
            c * real (coordinateBuffer_size t) \<le> real (coordinateBuffer_size t')"
    by blast
  obtain n :: nat where n: "1 / (c - 1) < real n"
    using reals_Archimedean2 by blast
  have npos: "0 < real n"
    using n c by (smt (verit) divide_pos_pos)
  have small: "size_t_sub (coordinateBuffer_size (full_scalar_buffer n))
                 (coordinateBufferUsed (full_scalar_buffer n))
               < coordinateSize (full_scalar_buffer n)"
    by (simp add: full_scalar_buffer_def Tensor_ctor_def size_t_sub_def sizeof_int_def)
  have "c * real (coordinateBuffer_size (full_scalar_buffer n)) \<le> real (4 * n + 4)"
    using geo [OF insert_full_scalar_buffer small, of 0] by simp
  then have le: "c * (4 * real n) \<le> 4 * real n + 4"
    by (simp add: full_scalar_buffer_def)
  from n c have "1 < (c - 1) * real n"
    by (simp add: pos_divide_less_eq mult.commute)
  then have "4 * real n + 4 < c * (4 * real n)"
    by (simp add: algebra_simps)
  with le show False by simp
qed

text \<open>
  C6, amended: a successful insert grows the buffer by exactly one record when the
  remaining capacity is below the record size and leaves its size unchanged otherwise;
  neither \<open>insert\<close> nor \<open>setFromComponents\<close> ever makes the buffer smaller.
\<close>

theorem insert_grows_by_one_record:
  "(TensorBase_insert CType coordinate v t = Inr t' \<longrightarrow>
      coordinateBuffer_size t \<le> coordinateBuffer_size t' \<and>
      coordinateBuffer_size t' =
        (if size_t_sub (coordinateBuffer_size t) (coordinateBufferUsed t)
              < coordinateSize t
         then coordinateBuffer_size t + coordinateSize t
         else coordinateBuffer_size t)) \<and>
   (setFromComponents CType cs t = Inr t'' \<longrightarrow>
      coordinateBuffer_size t \<le> coordinateBuffer_size t'')"
  using insert_size(1) [of CType coordinate v t t']
    setFromComponents_size_mono [of CType cs t t'']
  by simp

theorem insert_grows_by_one_record_witness:
  "TensorBase_insert (Datatype KInt 32) [] 7 (full_scalar_buffer 3) =
     Inr ((full_scalar_buffer 3)
            \<lparr> coordinateBuffer_size := 16,
              coordinateBuffer_records := replicate 3 ([], 0) @ [([], 7)],
              coordinateBufferUsed := 16, needsPack := True \<rparr>) \<and>
   coordinateBuffer_size (full_scalar_buffer 3) = 12 \<and>
   setFromComponents (Datatype KInt 32) [([], 1), ([], 2)] (full_scalar_buffer 3) =
     Inr ((full_scalar_buffer 3)
            \<lparr> coordinateBuffer_size := 20,
              coordinateBuffer_records := replicate 3 ([], 0) @ [([], 1), ([], 2)],
              coordinateBufferUsed := 20, needsPack := True \<rparr>) \<and>
   (12::nat) \<le> 16 \<and> (12::nat) \<le> 20"
proof -
  have i: "TensorBase_insert (Datatype KInt 32) [] 7 (full_scalar_buffer 3) =
     Inr ((full_scalar_buffer 3)
            \<lparr> coordinateBuffer_size := 16,
              coordinateBuffer_records := replicate 3 ([], 0) @ [([], 7)],
              coordinateBufferUsed := 16, needsPack := True \<rparr>)"
    using insert_full_scalar_buffer [of 7 3] by simp
  have s: "setFromComponents (Datatype KInt 32) [([], 1), ([], 2)] (full_scalar_buffer 3) =
     Inr ((full_scalar_buffer 3)
            \<lparr> coordinateBuffer_size := 20,
              coordinateBuffer_records := replicate 3 ([], 0) @ [([], 1), ([], 2)],
              coordinateBufferUsed := 20, needsPack := True \<rparr>)"
    by (simp add: TensorBase_insert_def full_scalar_buffer_def Tensor_ctor_def
      getOrder_def getComponentType_def size_t_sub_def sizeof_int_def Let_def)
  have z: "coordinateBuffer_size (full_scalar_buffer 3) = 12"
    by (simp add: full_scalar_buffer_def)
  from insert_grows_by_one_record [of "Datatype KInt 32" "[]" 7 "full_scalar_buffer 3"
      "(full_scalar_buffer 3)
            \<lparr> coordinateBuffer_size := 16,
              coordinateBuffer_records := replicate 3 ([], 0) @ [([], 7)],
              coordinateBufferUsed := 16, needsPack := True \<rparr>"
      "[([], 1), ([], 2)]"
      "(full_scalar_buffer 3)
            \<lparr> coordinateBuffer_size := 20,
              coordinateBuffer_records := replicate 3 ([], 0) @ [([], 1), ([], 2)],
              coordinateBufferUsed := 20, needsPack := True \<rparr>"] i s z
  show ?thesis by simp
qed

section \<open>The staged pipeline\<close>

lemma evaluate_clears_flags:
  "evaluate t = Inr t' \<Longrightarrow> no_stage_pending t'"
  by (auto simp: evaluate_def no_stage_pending_def Let_def TensorBase_pack_def
      TensorBase_compile_def TensorBase_assemble_def TensorBase_compute_def
      split: if_splits sum.splits option.splits)

lemma evaluate_no_stage_pending:
  "no_stage_pending t \<Longrightarrow> evaluate t = Inr t"
  by (simp add: evaluate_def no_stage_pending_def)

lemma evaluate_returns:
  assumes "assignment t = None \<longrightarrow> \<not> needsCompile t \<and> \<not> needsAssemble t \<and> \<not> needsCompute t"
  shows "\<exists>t'. evaluate t = Inr t'"
  using assms
  by (cases "assignment t")
     (auto simp: evaluate_def Let_def TensorBase_pack_def
      TensorBase_compile_def TensorBase_assemble_def TensorBase_compute_def)

lemma evaluate_same_type:
  "evaluate t = Inr t' \<Longrightarrow>
     dimensions t' = dimensions t \<and> ctype t' = ctype t \<and> handle t' = handle t"
  by (auto simp: evaluate_def Let_def TensorBase_pack_def
      TensorBase_compile_def TensorBase_assemble_def TensorBase_compute_def
      split: if_splits sum.splits option.splits)

lemma evaluate_only_pack:
  assumes "needsPack t" "assignment t = None" "\<not> needsCompile t" "\<not> needsAssemble t"
    "\<not> needsCompute t"
  shows "evaluate t = Inr (TensorBase_pack t)"
  using assms by (simp add: evaluate_def TensorBase_pack_def)

lemma syncValues_twice:
  "syncValues t = Inr t' \<Longrightarrow> no_stage_pending t' \<and> syncValues t' = Inr t'"
  using evaluate_clears_flags evaluate_no_stage_pending by (metis syncValues_def)

lemma syncValues_no_stage_pending: "no_stage_pending t \<Longrightarrow> syncValues t = Inr t"
  by (simp add: syncValues_def evaluate_no_stage_pending)

lemma evaluate_pending_matrix: "evaluate pending_matrix = Inr packed_matrix"
  by (simp add: evaluate_def pending_matrix_def packed_matrix_def matrix_2x2_def
      Tensor_ctor_def TensorBase_pack_def pack_records_def Let_def)

text \<open>
  C8: when \<open>evaluate\<close> returns, no need-flag is left set and a second call changes
  nothing, so the storage after two calls is the storage after one. It returns for every
  tensor that has an assignment or has none of the three later flags set.
\<close>

theorem evaluate_idempotent:
  "(evaluate t = Inr t' \<longrightarrow>
      \<not> needsPack t' \<and> \<not> needsCompile t' \<and> \<not> needsAssemble t' \<and> \<not> needsCompute t' \<and>
      evaluate t' = Inr t') \<and>
   ((assignment t = None \<longrightarrow> \<not> needsCompile t \<and> \<not> needsAssemble t \<and> \<not> needsCompute t)
      \<longrightarrow> (\<exists>t1. evaluate t = Inr t1 \<and> evaluate t1 = Inr t1))"
proof (intro conjI impI)
  assume e: "evaluate t = Inr t'"
  from evaluate_clears_flags [OF e]
  show "\<not> needsPack t'" "\<not> needsCompile t'" "\<not> needsAssemble t'" "\<not> needsCompute t'"
    by (simp_all add: no_stage_pending_def)
  from evaluate_clears_flags [OF e] show "evaluate t' = Inr t'"
    by (rule evaluate_no_stage_pending)
next
  assume "assignment t = None \<longrightarrow> \<not> needsCompile t \<and> \<not> needsAssemble t \<and> \<not> needsCompute t"
  from evaluate_returns [OF this] obtain t1 where e: "evaluate t = Inr t1" ..
  with evaluate_no_stage_pending [OF evaluate_clears_flags [OF e]]
  show "\<exists>t1. evaluate t = Inr t1 \<and> evaluate t1 = Inr t1" by blast
qed

theorem evaluate_idempotent_witness:
  "evaluate pending_matrix = Inr packed_matrix \<and>
   needsPack pending_matrix \<and> assignment pending_matrix = None \<and>
   \<not> needsCompile pending_matrix \<and> \<not> needsAssemble pending_matrix \<and>
   \<not> needsCompute pending_matrix \<and>
   \<not> needsPack packed_matrix \<and> \<not> needsCompile packed_matrix \<and>
   \<not> needsAssemble packed_matrix \<and> \<not> needsCompute packed_matrix \<and>
   evaluate packed_matrix = Inr packed_matrix \<and>
   storage packed_matrix = [([0, 1], 11)]"
proof -
  have flags: "needsPack pending_matrix" "assignment pending_matrix = None"
    "\<not> needsCompile pending_matrix" "\<not> needsAssemble pending_matrix"
    "\<not> needsCompute pending_matrix"
    by (simp_all add: pending_matrix_def matrix_2x2_def Tensor_ctor_def)
  have st: "storage packed_matrix = [([0, 1], 11)]"
    by (simp add: packed_matrix_def)
  from evaluate_idempotent [of pending_matrix packed_matrix] evaluate_pending_matrix
    flags st
  show ?thesis by simp
qed

section \<open>Duplicate coordinates are summed\<close>

lemma insert_ok:
  assumes "buffer_ok t" "length coordinate = getOrder t" "CType = getComponentType t"
  shows "\<exists>t'. TensorBase_insert CType coordinate v t = Inr t' \<and> buffer_ok t' \<and>
           same_tensor_type t t' \<and> needsPack t' \<and>
           coordinateBuffer_records t' = coordinateBuffer_records t @ [(coordinate, v)]"
  using assms
  by (auto simp: TensorBase_insert_def buffer_ok_def size_t_sub_def Let_def
      getOrder_def getComponentType_def same_tensor_type_def)

lemma same_tensor_type_trans:
  "same_tensor_type t t1 \<Longrightarrow> same_tensor_type t1 t2 \<Longrightarrow> same_tensor_type t t2"
  by (simp add: same_tensor_type_def)

lemma same_tensor_type_order:
  "same_tensor_type t t' \<Longrightarrow> getOrder t' = getOrder t \<and> getComponentType t' = getComponentType t"
  by (simp add: same_tensor_type_def getOrder_def getComponentType_def)

lemma setFromComponents_ok:
  assumes "buffer_ok t" "\<forall>c \<in> set cs. length (fst c) = getOrder t"
    "CType = getComponentType t"
  shows "\<exists>t'. setFromComponents CType cs t = Inr t' \<and> buffer_ok t' \<and>
           same_tensor_type t t' \<and>
           coordinateBuffer_records t' = coordinateBuffer_records t @ cs"
  using assms
proof (induction cs arbitrary: t)
  case Nil
  then show ?case by (simp add: same_tensor_type_def)
next
  case (Cons c cs)
  from insert_ok [of t "fst c" CType "snd c"] Cons.prems
  obtain t1 where t1: "TensorBase_insert CType (fst c) (snd c) t = Inr t1"
    "buffer_ok t1" "same_tensor_type t t1"
    "coordinateBuffer_records t1 = coordinateBuffer_records t @ [c]"
    by auto
  have "\<forall>c \<in> set cs. length (fst c) = getOrder t1" "CType = getComponentType t1"
    using Cons.prems same_tensor_type_order [OF t1(3)] by simp_all
  from Cons.IH [OF t1(2) this]
  obtain t' where t': "setFromComponents CType cs t1 = Inr t'" "buffer_ok t'"
    "same_tensor_type t1 t'"
    "coordinateBuffer_records t' = coordinateBuffer_records t1 @ cs"
    by blast
  show ?case
    using t1 t' same_tensor_type_trans [OF t1(3) t'(3)] by simp
qed

lemma apply_insertions_ok:
  assumes "buffer_ok t"
    "\<forall>c \<in> set (concat (map inserted ops)). length (fst c) = getOrder t"
    "CType = getComponentType t"
  shows "\<exists>t'. apply_insertions CType ops t = Inr t' \<and> buffer_ok t' \<and>
           same_tensor_type t t' \<and>
           coordinateBuffer_records t' =
             coordinateBuffer_records t @ concat (map inserted ops)"
  using assms
proof (induction ops arbitrary: t)
  case Nil
  then show ?case by (simp add: same_tensor_type_def)
next
  case (Cons i ops)
  have "\<exists>t1. apply_insertion CType i t = Inr t1 \<and> buffer_ok t1 \<and>
           same_tensor_type t t1 \<and>
           coordinateBuffer_records t1 = coordinateBuffer_records t @ inserted i"
  proof (cases i)
    case (Insert coordinate v)
    with insert_ok [of t coordinate CType v] Cons.prems show ?thesis by auto
  next
    case (SetFromComponents cs)
    with setFromComponents_ok [of t cs CType] Cons.prems show ?thesis by auto
  qed
  then obtain t1 where t1: "apply_insertion CType i t = Inr t1" "buffer_ok t1"
    "same_tensor_type t t1"
    "coordinateBuffer_records t1 = coordinateBuffer_records t @ inserted i"
    by blast
  have "\<forall>c \<in> set (concat (map inserted ops)). length (fst c) = getOrder t1"
    "CType = getComponentType t1"
    using Cons.prems same_tensor_type_order [OF t1(3)] by simp_all
  from Cons.IH [OF t1(2) this]
  obtain t' where t': "apply_insertions CType ops t1 = Inr t'" "buffer_ok t'"
    "same_tensor_type t1 t'"
    "coordinateBuffer_records t' = coordinateBuffer_records t1 @ concat (map inserted ops)"
    by blast
  show ?case
    using t1 t' same_tensor_type_trans [OF t1(3) t'(3)] by simp
qed

lemma insert_needsPack:
  "TensorBase_insert CType coordinate v t = Inr t' \<Longrightarrow> needsPack t'"
  by (auto simp: TensorBase_insert_def Let_def split: if_splits)

lemma setFromComponents_needsPack:
  "setFromComponents CType cs t = Inr t' \<Longrightarrow> cs \<noteq> [] \<or> needsPack t \<Longrightarrow> needsPack t'"
proof (induction cs arbitrary: t)
  case Nil
  then show ?case by simp
next
  case (Cons c cs)
  from Cons.prems(1) obtain t1 where
    i: "TensorBase_insert CType (fst c) (snd c) t = Inr t1"
    and r: "setFromComponents CType cs t1 = Inr t'"
    by (auto split: sum.splits)
  have "needsPack t1" by (rule insert_needsPack [OF i])
  then show ?case by (intro Cons.IH [OF r]) simp
qed

lemma map_of_pack_records:
  "map_of (pack_records rs) c =
     (if c \<in> fst ` set rs then Some (sum_list (map snd (filter (\<lambda>r. fst r = c) rs)))
      else None)"
proof -
  have "map_of (map (\<lambda>k. (k, f k)) ks) c = (if c \<in> set ks then Some (f c) else None)"
    for f :: "int list \<Rightarrow> 'a" and ks
    by (induction ks) auto
  then show ?thesis by (simp add: pack_records_def)
qed

lemma distinct_pack_records: "distinct (map fst (pack_records rs))"
  by (simp add: pack_records_def comp_def)

lemma pack_records_distinct:
  fixes rs :: "(int list \<times> 'v::comm_monoid_add) list"
  assumes "distinct (map fst rs)"
  shows "pack_records rs = rs"
proof -
  have "sum_list (map snd (filter (\<lambda>r'. fst r' = fst r) rs)) = snd r" if "r \<in> set rs" for r
  proof -
    have "filter (\<lambda>r'. fst r' = fst r) rs = [r]"
      using assms that
    proof (induction rs)
      case Nil
      then show ?case by simp
    next
      case (Cons a rs)
      show ?case
      proof (cases "a = r")
        case True
        have "filter (\<lambda>r'. fst r' = fst r) rs = []"
          using Cons.prems(1) True by (force simp: filter_empty_conv image_iff)
        with True show ?thesis by simp
      next
        case False
        with Cons.prems have "r \<in> set rs" "fst a \<noteq> fst r"
          by (auto simp: image_iff)
        with Cons show ?thesis by simp
      qed
    qed
    then show ?thesis by simp
  qed
  then have "map (\<lambda>c. (c, sum_list (map snd (filter (\<lambda>r. fst r = c) rs)))) (map fst rs) = rs"
    by (simp add: map_idI)
  then show ?thesis
    using assms by (simp add: pack_records_def distinct_remdups_id)
qed

lemma pack_well_formed:
  fixes t :: "'v::comm_monoid_add TensorBase"
  assumes "\<forall>r \<in> set (coordinateBuffer_records t). length (fst r) = getOrder t"
  shows "well_formed_storage (TensorBase_pack t)"
proof -
  have "fst ` set (pack_records (coordinateBuffer_records t))
          \<subseteq> fst ` set (coordinateBuffer_records t)"
    by (force simp: pack_records_def)
  with assms show ?thesis
    by (fastforce simp: well_formed_storage_def list_all_iff TensorBase_pack_def getOrder_def
        distinct_pack_records)
qed

lemma sum_list_filter_mset:
  fixes rs :: "(int list \<times> 'v::comm_monoid_add) list"
  assumes "mset rs' = mset rs"
  shows "sum_list (map snd (filter P rs')) = sum_list (map snd (filter P rs))"
proof -
  have "mset (map snd (filter P rs')) = mset (map snd (filter P rs))"
    using assms by (metis mset_filter mset_map)
  then show ?thesis by (metis sum_mset_sum_list)
qed

text \<open>
  C1: let a sequence of insertions (calls of \<open>insert\<close> and \<open>setFromComponents\<close>) with
  coordinates of the tensor's order and values of its component type be applied to a
  tensor whose coordinate buffer holds no record. Then the insertions succeed, and
  after \<open>pack()\<close> the value stored at a coordinate \<open>C\<close> that occurs among them
  is the sum of the values inserted at \<open>C\<close>. Any other sequence that inserts the same
  components in another order, grouped into calls in another way, stores the same value.
\<close>

theorem pack_sums_duplicates:
  fixes t :: "'v::comm_monoid_add TensorBase"
  assumes "buffer_ok t" and "coordinateBuffer_records t = []"
    and "CType = getComponentType t"
    and "\<forall>c \<in> set (concat (map inserted ops)). length (fst c) = getOrder t"
    and "C \<in> fst ` set (concat (map inserted ops))"
  shows "(\<exists>t'. apply_insertions CType ops t = Inr t' \<and>
            stored (TensorBase_pack t') C =
              Some (sum_list (map snd (filter (\<lambda>r. fst r = C) (concat (map inserted ops)))))) \<and>
         (\<forall>ops'. mset (concat (map inserted ops')) = mset (concat (map inserted ops)) \<longrightarrow>
            (\<exists>t''. apply_insertions CType ops' t = Inr t'' \<and>
               stored (TensorBase_pack t'') C =
                 Some (sum_list (map snd (filter (\<lambda>r. fst r = C) (concat (map inserted ops)))))))"
proof -
  have main: "\<exists>t''. apply_insertions CType ops' t = Inr t'' \<and>
               stored (TensorBase_pack t'') C =
                 Some (sum_list (map snd (filter (\<lambda>r. fst r = C) (concat (map inserted ops)))))"
    if perm: "mset (concat (map inserted ops')) = mset (concat (map inserted ops))" for ops'
  proof -
    have sets: "set (concat (map inserted ops')) = set (concat (map inserted ops))"
      using perm by (rule mset_eq_setD)
    have "\<forall>c \<in> set (concat (map inserted ops')). length (fst c) = getOrder t"
      using assms(4) sets by simp
    from apply_insertions_ok [OF assms(1) this assms(3)] assms(2)
    obtain t'' where t'': "apply_insertions CType ops' t = Inr t''"
      "coordinateBuffer_records t'' = concat (map inserted ops')"
      by auto
    have "C \<in> fst ` set (concat (map inserted ops'))"
      using assms(5) sets by simp
    then have "stored (TensorBase_pack t'') C =
        Some (sum_list (map snd (filter (\<lambda>r. fst r = C) (concat (map inserted ops')))))"
      by (simp add: stored_def TensorBase_pack_def map_of_pack_records t''(2))
    also have "sum_list (map snd (filter (\<lambda>r. fst r = C) (concat (map inserted ops')))) =
        sum_list (map snd (filter (\<lambda>r. fst r = C) (concat (map inserted ops))))"
      using perm by (rule sum_list_filter_mset)
    finally show ?thesis using t''(1) by blast
  qed
  from main [of ops] main show ?thesis by blast
qed

theorem pack_sums_duplicates_witness:
  "buffer_ok matrix_2x2 \<and> coordinateBuffer_records matrix_2x2 = [] \<and>
   getComponentType matrix_2x2 = Datatype KInt 32 \<and> getOrder matrix_2x2 = 2 \<and>
   (\<exists>t'. apply_insertions (Datatype KInt 32)
           [Insert [0, 1] 5, SetFromComponents [([1, 0], 2), ([0, 1], 6)]] matrix_2x2 = Inr t' \<and>
         stored (TensorBase_pack t') [0, 1] = Some 11) \<and>
   (\<exists>t''. apply_insertions (Datatype KInt 32)
           [SetFromComponents [([0, 1], 6), ([1, 0], 2)], Insert [0, 1] 5] matrix_2x2 = Inr t'' \<and>
         stored (TensorBase_pack t'') [0, 1] = Some 11)"
proof -
  let ?ops = "[Insert [0, 1] 5, SetFromComponents [([1, 0], 2), ([0, 1], 6)]]
                :: int insertion list"
  let ?ops' = "[SetFromComponents [([0, 1], 6), ([1, 0], 2)], Insert [0, 1] 5]
                :: int insertion list"
  have h1: "buffer_ok matrix_2x2"
    by (simp add: buffer_ok_def matrix_2x2_def Tensor_ctor_def getOrder_def
        getComponentType_def)
  have h2: "coordinateBuffer_records matrix_2x2 = []"
    by (simp add: matrix_2x2_def Tensor_ctor_def)
  have h3: "Datatype KInt 32 = getComponentType matrix_2x2"
    by (simp add: matrix_2x2_def Tensor_ctor_def getComponentType_def)
  have ord: "getOrder matrix_2x2 = 2"
    by (simp add: matrix_2x2_def Tensor_ctor_def getOrder_def)
  have h4: "\<forall>c \<in> set (concat (map inserted ?ops)). length (fst c) = getOrder matrix_2x2"
    by (simp add: ord)
  have h5: "[0, 1] \<in> fst ` set (concat (map inserted ?ops))"
    by simp
  have perm: "mset (concat (map inserted ?ops')) = mset (concat (map inserted ?ops))"
    by simp
  have s: "sum_list (map snd (filter (\<lambda>r. fst r = [0, 1]) (concat (map inserted ?ops)))) = 11"
    by simp
  note th = pack_sums_duplicates [OF h1 h2 h3 h4 h5, unfolded s]
  from th [THEN conjunct1]
  have a: "\<exists>t'. apply_insertions (Datatype KInt 32) ?ops matrix_2x2 = Inr t' \<and>
         stored (TensorBase_pack t') [0, 1] = Some 11" .
  from th [THEN conjunct2, THEN spec, of ?ops', THEN mp, OF perm]
  have b: "\<exists>t''. apply_insertions (Datatype KInt 32) ?ops' matrix_2x2 = Inr t'' \<and>
         stored (TensorBase_pack t'') [0, 1] = Some 11" .
  from a b h1 h2 h3 ord show ?thesis by simp
qed

section \<open>Equality of iterators\<close>

text \<open>
  C5, as stated, fails for the end iterators of two different tensors: both are at the
  end, and \<open>operator==\<close> is false.
\<close>

theorem operator_eq_ends_of_two_tensors:
  "Tensor_end_const [] example_matrix = Inr ([], example_end) \<and>
   Tensor_end_const [] other_matrix = Inr ([], other_end) \<and>
   isEnd example_end \<and> isEnd other_end \<and>
   operator_eq [] example_end other_end = Inr False \<and>
   \<not> (operator_eq [] example_end other_end = Inr True \<longleftrightarrow>
        (isEnd example_end \<and> isEnd other_end) \<or>
        (tensor example_end = tensor other_end \<and>
         current_coordinate [] example_end = current_coordinate [] other_end))"
  by code_simp

text \<open>
  C5, amended: \<open>operator==\<close> is true if and only if both iterators hold the address of
  the same \<open>TensorBase\<close> object and either both are at the end or neither is and
  their current coordinates are equal. What is compared is the address of the handle
  an iterator was created from, not the content the handle refers to: the \<open>end()\<close>
  iterators of two handles are equal exactly when the two handles are one object, so
  iterators taken through two handles of one tensor are never equal. The operator
  reads the contexts only when neither iterator is at the end, so it is defined for
  all iterators whose context is valid whenever they are not at the end.
\<close>

theorem operator_eq_iff:
  assumes "\<not> isEnd a \<longrightarrow> \<not> isl (deref_ctx h (ctx a))"
    and "\<not> isEnd b \<longrightarrow> \<not> isl (deref_ctx h (ctx b))"
  shows "operator_eq h a b =
           Inr (tensor a = tensor b \<and>
                (isEnd a \<and> isEnd b \<or>
                 \<not> isEnd a \<and> \<not> isEnd b \<and>
                   current_coordinate h a = current_coordinate h b)) \<and>
         (\<forall>t t' e e'. Tensor_end_const h t = Inr (h, e) \<and> Tensor_end_const h t' = Inr (h, e')
            \<longrightarrow> operator_eq h e e' = Inr (handle t = handle t'))"
proof (intro conjI allI impI)
  show "operator_eq h a b =
           Inr (tensor a = tensor b \<and>
                (isEnd a \<and> isEnd b \<or>
                 \<not> isEnd a \<and> \<not> isEnd b \<and>
                   current_coordinate h a = current_coordinate h b))"
  proof (cases "tensor a = tensor b \<and> \<not> isEnd a \<and> \<not> isEnd b")
    case True
    with assms obtain ca cb where "deref_ctx h (ctx a) = Inr ca" "deref_ctx h (ctx b) = Inr cb"
      by (metis isl_def sum.collapse(2))
    with True show ?thesis
      by (simp add: operator_eq_def current_coordinate_def operator_deref_def)
  next
    case False
    then show ?thesis
      by (auto simp: operator_eq_def)
  qed
next
  fix t t' :: "'a TensorBase" and e e'
  assume "Tensor_end_const h t = Inr (h, e) \<and> Tensor_end_const h t' = Inr (h, e')"
  then have "tensor e = handle t" "tensor e' = handle t'" "isEnd e" "isEnd e'"
    by (auto simp: Tensor_end_const_def TensorBase_iterator_const_def wrapper_end_def
        const_iterator_ctor_def isEnd_def)
  then show "operator_eq h e e' = Inr (handle t = handle t')"
    by (simp add: operator_eq_def)
qed

theorem operator_eq_iff_witness:
  "\<not> isEnd example_begin \<and> \<not> isl (deref_ctx advanced_heap (ctx example_begin)) \<and>
   \<not> isEnd advanced_copy \<and> \<not> isl (deref_ctx advanced_heap (ctx advanced_copy)) \<and>
   tensor example_begin = tensor advanced_copy \<and>
   current_coordinate advanced_heap example_begin = Inr [0, 1] \<and>
   current_coordinate advanced_heap advanced_copy = Inr [1, 0] \<and>
   operator_eq advanced_heap example_begin advanced_copy = Inr False \<and>
   operator_eq advanced_heap example_begin example_begin = Inr True \<and>
   operator_eq advanced_heap example_end example_end = Inr True \<and>
   operator_eq advanced_heap example_begin example_end = Inr False \<and>
   Tensor_end_const advanced_heap example_matrix = Inr (advanced_heap, example_end) \<and>
   Tensor_end_const advanced_heap example_alias = Inr (advanced_heap, alias_end) \<and>
   storage example_alias = storage example_matrix \<and>
   handle example_matrix = 1 \<and> handle example_alias = 4 \<and>
   operator_eq advanced_heap example_end alias_end = Inr False"
proof -
  have a: "\<not> isEnd example_begin" "\<not> isl (deref_ctx advanced_heap (ctx example_begin))"
    by code_simp+
  have b: "\<not> isEnd advanced_copy" "\<not> isl (deref_ctx advanced_heap (ctx advanced_copy))"
    by code_simp+
  have e: "isEnd example_end" by code_simp
  have c: "tensor example_begin = tensor advanced_copy"
    "current_coordinate advanced_heap example_begin = Inr [0, 1]"
    "current_coordinate advanced_heap advanced_copy = Inr [1, 0]"
    "tensor example_begin = tensor example_end"
    by code_simp+
  have d: "Tensor_end_const advanced_heap example_matrix = Inr (advanced_heap, example_end)"
    "Tensor_end_const advanced_heap example_alias = Inr (advanced_heap, alias_end)"
    by (simp_all add: Tensor_end_const_def TensorBase_iterator_const_def wrapper_end_def
        const_iterator_ctor_def example_end_def alias_end_def)
  have f: "storage example_alias = storage example_matrix"
    "handle example_matrix = 1" "handle example_alias = 4"
    by (simp_all add: example_alias_def example_matrix_def Tensor_ctor_def)
  have pe: "\<not> isEnd example_end \<longrightarrow> \<not> isl (deref_ctx advanced_heap (ctx example_end))"
    using e by simp
  note th = operator_eq_iff [OF pe pe]
  from th [THEN conjunct2, rule_format, OF conjI [OF d(1) d(2)]] f
  have g: "operator_eq advanced_heap example_end alias_end = Inr False"
    by simp
  from operator_eq_iff [of example_begin advanced_heap advanced_copy]
    operator_eq_iff [of example_begin advanced_heap example_begin]
    th
    operator_eq_iff [of example_begin advanced_heap example_end]
    a b c e
  have "operator_eq advanced_heap example_begin advanced_copy = Inr False"
    "operator_eq advanced_heap example_begin example_begin = Inr True"
    "operator_eq advanced_heap example_end example_end = Inr True"
    "operator_eq advanced_heap example_begin example_end = Inr False"
    by simp_all
  with a b c d f g show ?thesis by simp
qed

section \<open>Copies of an iterator\<close>

lemma advance_unshared:
  assumes "ctx it = Some a" "a < length h" "\<not> 1 < snd (h ! a)"
  shows "advance iterFunc h it =
           (case step_ctx iterFunc False (fst (h ! a)) it of
              Inl e \<Rightarrow> Inl e
            | Inr (c', it') \<Rightarrow> Inr (h[a := (c', snd (h ! a))], it'))"
  using assms
  by (auto simp: advance_def clone_if_shared_def use_count_def fillBuffer_def
      load_curVal_def store_ctx_def step_ctx_def
      split: prod.splits sum.splits)

lemma clone_if_shared_eq:
  assumes "ctx it = Some a" "a < length h" "1 < snd (h ! a)"
  shows "clone_if_shared h it =
           (case cloned (fst (h ! a)) it of
              Inl e \<Rightarrow> Inl e
            | Inr c1 \<Rightarrow> Inr (release h (Some a) @ [(c1, 1)], it\<lparr> ctx := Some (length h) \<rparr>))"
  using assms
  by (simp add: clone_if_shared_def cloned_def use_count_def deref_ctx_def make_shared_def
      release_def split: option.splits)

lemma step_ctx_shared:
  "step_ctx iterFunc True c it =
     (case cloned c it of Inl e \<Rightarrow> Inl e | Inr c1 \<Rightarrow> step_ctx iterFunc False c1 it)"
  by (cases "cloned c it") (simp_all add: step_ctx_def)

lemma step_ctx_ctx_update:
  "step_ctx iterFunc False c (it\<lparr> ctx := p \<rparr>) =
     (case step_ctx iterFunc False c it of
        Inl e \<Rightarrow> Inl e
      | Inr (c', it') \<Rightarrow> Inr (c', it'\<lparr> ctx := p \<rparr>))"
  by (cases "bufferSize it \<le> bufferPos it + 1")
     (auto simp: step_ctx_def split: prod.splits)

lemma advance_shared:
  assumes "ctx it = Some a" "a < length h" "1 < snd (h ! a)"
  shows "advance iterFunc h it =
           (case step_ctx iterFunc True (fst (h ! a)) it of
              Inl e \<Rightarrow> Inl e
            | Inr (c', it') \<Rightarrow>
                Inr (release h (Some a) @ [(c', 1)], it'\<lparr> ctx := Some (length h) \<rparr>))"
proof (cases "cloned (fst (h ! a)) it")
  case (Inl e)
  then show ?thesis
    using clone_if_shared_eq [OF assms] by (simp add: advance_def step_ctx_shared)
next
  case (Inr c1)
  let ?h1 = "release h (Some a) @ [(c1, 1)]"
  let ?it1 = "it\<lparr> ctx := Some (length h) \<rparr>"
  have len: "length (release h (Some a)) = length h"
    by (simp add: release_def)
  have cl: "clone_if_shared h it = Inr (?h1, ?it1)"
    using clone_if_shared_eq [OF assms] Inr by simp
  have "clone_if_shared ?h1 ?it1 = Inr (?h1, ?it1)"
    by (simp add: clone_if_shared_def use_count_def len nth_append)
  with cl have "advance iterFunc h it = advance iterFunc ?h1 ?it1"
    by (simp add: advance_def)
  also have "\<dots> = (case step_ctx iterFunc False (fst (?h1 ! length h)) ?it1 of
              Inl e \<Rightarrow> Inl e
            | Inr (c', it') \<Rightarrow> Inr (?h1[length h := (c', snd (?h1 ! length h))], it'))"
    by (rule advance_unshared) (simp_all add: len nth_append)
  also have "\<dots> = (case step_ctx iterFunc False c1 it of
              Inl e \<Rightarrow> Inl e
            | Inr (c', it') \<Rightarrow>
                Inr (release h (Some a) @ [(c', 1)], it'\<lparr> ctx := Some (length h) \<rparr>))"
    using len by (simp add: nth_append step_ctx_ctx_update list_update_append
        split: sum.splits)
  finally show ?thesis
    using Inr by (simp add: step_ctx_shared)
qed

lemma step_ctx_ctx:
  "step_ctx iterFunc shared c it = Inr (c', it') \<Longrightarrow> ctx it' = ctx it"
  by (auto simp: step_ctx_def split: sum.splits prod.splits if_splits option.splits)

lemma step_ctx_fields:
  "step_ctx iterFunc shared c it = Inr (c', it') \<Longrightarrow>
     tensorStorage it' = tensorStorage it \<and> tensor it' = tensor it"
  by (auto simp: step_ctx_def split: sum.splits prod.splits if_splits option.splits)

lemma deref_ctx_nth: "a < length h \<Longrightarrow> deref_ctx h (Some a) = Inr (fst (h ! a))"
  by (simp add: deref_ctx_def)

lemma use_count_nth: "a < length h \<Longrightarrow> use_count h (Some a) = snd (h ! a)"
  by (simp add: use_count_def)

lemma advance_cases:
  assumes "ctx it = Some a" "a < length h"
  shows "advance iterFunc h it =
           (case step_ctx iterFunc (1 < snd (h ! a)) (fst (h ! a)) it of
              Inl e \<Rightarrow> Inl e
            | Inr (c', it') \<Rightarrow>
                if 1 < snd (h ! a)
                then Inr (release h (Some a) @ [(c', 1)], it'\<lparr> ctx := Some (length h) \<rparr>)
                else Inr (h[a := (c', snd (h ! a))], it'))"
proof (cases "1 < snd (h ! a)")
  case True
  then show ?thesis
    using advance_shared [OF assms True, of iterFunc] by (simp split: sum.splits)
next
  case False
  then show ?thesis
    using advance_unshared [OF assms False, of iterFunc] by (simp split: sum.splits)
qed

lemma yield_after_advance_eq:
  assumes "ctx it = Some a" "a < length h"
  shows "yield_after_advance iterFunc h it =
           (case step_ctx iterFunc (1 < snd (h ! a)) (fst (h ! a)) it of
              Inl e \<Rightarrow> Inl e
            | Inr (c', it') \<Rightarrow> Inr (bufferSize it', bufferPos it', Inr c'))"
proof (cases "step_ctx iterFunc (1 < snd (h ! a)) (fst (h ! a)) it")
  case (Inl e)
  then show ?thesis
    by (simp add: yield_after_advance_def advance_cases [OF assms])
next
  case (Inr r)
  obtain c' it' where r: "r = (c', it')" by (cases r)
  have "ctx it' = Some a"
    using step_ctx_ctx Inr r assms(1) by metis
  then show ?thesis
    using Inr r assms(2)
    by (simp add: yield_after_advance_def advance_cases [OF assms] deref_ctx_def
        release_def nth_append)
qed

lemma yield_after_advance_same_cell:
  assumes "ctx it = Some a" "a < length h" "a < length g" "g ! a = h ! a"
  shows "yield_after_advance iterFunc g it = yield_after_advance iterFunc h it"
  by (simp add: yield_after_advance_eq [OF assms(1,2)] yield_after_advance_eq [OF assms(1,3)]
      assms(4))

lemma copy_then_advance:
  assumes live: "ctx it = Some a" "a < length h" "0 < snd (h ! a)"
    and cp: "const_iterator_copy h it = (h1, cp)"
    and adv: "advance iterFunc h1 cp = Inr (h2, cp')"
  shows "cp = it" and "\<exists>c'. h2 = h @ [(c', 1)]" and "ctx cp' = Some (length h)"
proof -
  from cp have cp_it: "cp = it" and h1: "h1 = retain h (Some a)"
    using live(1) by (auto simp: const_iterator_copy_def)
  show "cp = it" by (rule cp_it)
  have len1: "a < length h1" and cell1: "h1 ! a = (fst (h ! a), Suc (snd (h ! a)))"
    using live(2) by (simp_all add: h1 retain_def)
  have shared: "1 < snd (h1 ! a)"
    using live(3) by (simp add: cell1)
  have rel: "release h1 (Some a) = h"
    using live(2) by (simp add: h1 retain_def release_def list_update_same_conv)
  from adv [unfolded cp_it advance_shared [OF live(1) len1 shared]]
  obtain c' it' where
    "step_ctx iterFunc True (fst (h1 ! a)) it = Inr (c', it')"
    "h2 = release h1 (Some a) @ [(c', 1)]" "cp' = it'\<lparr>ctx := Some (length h1)\<rparr>"
    by (auto split: sum.splits)
  then show "\<exists>c'. h2 = h @ [(c', 1)]" and "ctx cp' = Some (length h)"
    using rel by (auto simp: h1 retain_def)
qed

lemma advance_other_cell:
  assumes "ctx it = Some a" "a < length h" "advance iterFunc h it = Inr (h', it')"
    and "b < length h" "b \<noteq> a"
  shows "b < length h' \<and> h' ! b = h ! b"
proof -
  from assms(3) [unfolded advance_cases [OF assms(1,2)]]
  have "(\<exists>c'. h' = release h (Some a) @ [(c', 1)]) \<or> (\<exists>c'. h' = h[a := (c', snd (h ! a))])"
    by (auto split: sum.splits if_splits)
  then show ?thesis
    using assms(4,5) by (auto simp: release_def nth_append)
qed

text \<open>
  C4: let \<open>it\<close> be an iterator on a live context (one whose use count is at least one),
  let \<open>cp\<close> be copy-constructed from it and then advanced, with any iteration kernel.
  Then the copy started at the same position; the context of the original, and with it
  its buffers, current pair and kernel state, is what it was, and so are its use count
  and what the original yields when it is advanced next. The advanced copy has a
  context of its own, and from then on advancing either iterator leaves the context
  and the next yield of the other unchanged.
\<close>

theorem copy_advance_leaves_original:
  assumes "ctx it = Some a" and "a < length h" and "0 < snd (h ! a)"
    and "const_iterator_copy h it = (h1, cp)"
    and "advance iterFunc h1 cp = Inr (h2, cp')"
  shows "cp = it \<and>
         deref_ctx h2 (ctx it) = deref_ctx h (ctx it) \<and>
         operator_deref h2 it = operator_deref h it \<and>
         use_count h2 (ctx it) = use_count h (ctx it) \<and>
         yield_after_advance iterFunc h2 it = yield_after_advance iterFunc h it \<and>
         ctx cp' \<noteq> ctx it \<and> use_count h2 (ctx cp') = 1 \<and>
         (\<forall>h3 cp''. advance iterFunc h2 cp' = Inr (h3, cp'') \<longrightarrow>
            deref_ctx h3 (ctx it) = deref_ctx h (ctx it) \<and>
            yield_after_advance iterFunc h3 it = yield_after_advance iterFunc h it) \<and>
         (\<forall>h3 it'. advance iterFunc h2 it = Inr (h3, it') \<longrightarrow>
            deref_ctx h3 (ctx cp') = deref_ctx h2 (ctx cp') \<and>
            yield_after_advance iterFunc h3 cp' = yield_after_advance iterFunc h2 cp')"
proof -
  from copy_then_advance [OF assms] obtain c' where
    eq: "cp = it" and h2: "h2 = h @ [(c', 1)]" and new: "ctx cp' = Some (length h)"
    by blast
  have a2: "a < length h2" and cell: "h2 ! a = h ! a"
    using assms(2) by (simp_all add: h2 nth_append)
  have n2: "length h < length h2" by (simp add: h2)
  have d: "deref_ctx h2 (ctx it) = deref_ctx h (ctx it)"
    using assms(1,2) a2 cell by (simp add: deref_ctx_def)
  have u: "use_count h2 (ctx it) = use_count h (ctx it)"
    using assms(1,2) a2 cell by (simp add: use_count_def)
  have y: "yield_after_advance iterFunc h2 it = yield_after_advance iterFunc h it"
    by (rule yield_after_advance_same_cell [OF assms(1,2) a2 cell])
  have ne: "ctx cp' \<noteq> ctx it"
    using new assms(1,2) by simp
  have u1: "use_count h2 (ctx cp') = 1"
    by (simp add: new h2 use_count_def)
  have copy_on: "deref_ctx h3 (ctx it) = deref_ctx h (ctx it) \<and>
            yield_after_advance iterFunc h3 it = yield_after_advance iterFunc h it"
    if "advance iterFunc h2 cp' = Inr (h3, cp'')" for h3 cp''
  proof -
    from advance_other_cell [OF new n2 that a2] assms(2)
    have a3: "a < length h3" and cell3: "h3 ! a = h ! a"
      by (simp_all add: cell)
    show ?thesis
      using yield_after_advance_same_cell [OF assms(1,2) a3 cell3, of iterFunc]
        assms(1,2) a3 cell3
      by (simp add: deref_ctx_def)
  qed
  have orig_on: "deref_ctx h3 (ctx cp') = deref_ctx h2 (ctx cp') \<and>
            yield_after_advance iterFunc h3 cp' = yield_after_advance iterFunc h2 cp'"
    if "advance iterFunc h2 it = Inr (h3, it')" for h3 it'
  proof -
    from advance_other_cell [OF assms(1) a2 that n2] assms(2)
    have n3: "length h < length h3" and cell3: "h3 ! length h = h2 ! length h"
      by simp_all
    show ?thesis
      using yield_after_advance_same_cell [OF new n2 n3 cell3, of iterFunc] n2 n3 cell3
      by (simp add: deref_ctx_def new)
  qed
  from eq d u y ne u1 copy_on orig_on show ?thesis
    by (simp add: operator_deref_def)
qed

theorem copy_advance_leaves_original_witness:
  "Tensor_begin_const [] example_matrix = Inr (example_heap, example_begin) \<and>
   ctx example_begin = Some 0 \<and> 0 < length example_heap \<and> 0 < snd (example_heap ! 0) \<and>
   advance shim_iterate (fst (const_iterator_copy example_heap example_begin))
      (snd (const_iterator_copy example_heap example_begin))
     = Inr (advanced_heap, advanced_copy) \<and>
   snd (const_iterator_copy example_heap example_begin) = example_begin \<and>
   operator_deref example_heap example_begin = Inr ([0, 1], 5) \<and>
   operator_deref advanced_heap example_begin = Inr ([0, 1], 5) \<and>
   operator_deref advanced_heap advanced_copy = Inr ([1, 0], 7) \<and>
   bufferPos example_begin = 0 \<and> bufferPos advanced_copy = 1 \<and>
   use_count advanced_heap (ctx example_begin) = 1 \<and>
   use_count advanced_heap (ctx advanced_copy) = 1 \<and>
   yield_after_advance shim_iterate advanced_heap example_begin =
     yield_after_advance shim_iterate example_heap example_begin"
proof -
  have b: "Tensor_begin_const [] example_matrix = Inr (example_heap, example_begin)"
    by code_simp
  have h1: "ctx example_begin = Some 0" by code_simp
  have h2: "0 < length example_heap" by code_simp
  have h3: "0 < snd (example_heap ! 0)" by code_simp
  have h4: "const_iterator_copy example_heap example_begin =
              (fst (const_iterator_copy example_heap example_begin),
               snd (const_iterator_copy example_heap example_begin))"
    by simp
  have h5: "advance shim_iterate (fst (const_iterator_copy example_heap example_begin))
      (snd (const_iterator_copy example_heap example_begin))
     = Inr (advanced_heap, advanced_copy)"
    by code_simp
  have v: "operator_deref example_heap example_begin = Inr ([0, 1], 5)"
    "operator_deref advanced_heap advanced_copy = Inr ([1, 0], 7)"
    "bufferPos example_begin = 0" "bufferPos advanced_copy = 1"
    "use_count example_heap (ctx example_begin) = 1"
    by code_simp+
  from copy_advance_leaves_original [OF h1 h2 h3 h4 h5] b h1 h2 h3 h5 v
  show ?thesis by simp
qed

section \<open>The iterator walks the storage\<close>

lemma length_concat_blocks:
  "\<forall>xs \<in> set xss. length xs = n \<Longrightarrow> length (concat xss) = n * length xss"
  by (induction xss) auto

lemma concat_nth_block:
  "\<forall>xs \<in> set xss. length xs = n \<Longrightarrow> i < length xss \<Longrightarrow>
     take n (drop (i * n) (concat xss)) = xss ! i"
proof (induction xss arbitrary: i)
  case Nil
  then show ?case by simp
next
  case (Cons xs xss)
  show ?case
  proof (cases i)
    case 0
    with Cons.prems show ?thesis by simp
  next
    case (Suc j)
    with Cons.prems have "take n (drop (j * n) (concat xss)) = xss ! j"
      by (intro Cons.IH) auto
    with Suc Cons.prems show ?thesis by (simp add: add.commute)
  qed
qed

lemma take_block_of_prefix:
  assumes "take m zs = concat xss" "\<forall>xs \<in> set xss. length xs = n" "i < length xss"
    "n * length xss \<le> m"
  shows "take n (drop (i * n) zs) = xss ! i"
proof -
  have "(i + 1) * n \<le> m"
    using assms(3,4) by (metis Suc_eq_plus1 Suc_leI le_trans mult.commute mult_le_mono2)
  then have "take n (drop (i * n) (take m zs)) = take n (drop (i * n) zs)"
    by (simp add: drop_take min_def)
  then show ?thesis
    using concat_nth_block [OF assms(2,3)] assms(1) by simp
qed

lemma shim_iterate_result:
  assumes "\<forall>r \<in> set st. length (fst r) = n" "length coords = n * cap" "length vals = cap"
    "(case state of None \<Rightarrow> 0 | Some p \<Rightarrow> p) = p"
  shows "\<exists>coords' vals'.
           shim_iterate state coords vals cap st =
             ((Some (p + length (take cap (drop p st))), coords', vals'),
              int (length (take cap (drop p st)))) \<and>
           length coords' = n * cap \<and> length vals' = cap \<and>
           take (n * length (take cap (drop p st))) coords' =
             concat (map fst (take cap (drop p st))) \<and>
           take (length (take cap (drop p st))) vals' = map snd (take cap (drop p st))"
proof -
  define batch where "batch = take cap (drop p st)"
  define b where "b = length batch"
  have all: "\<forall>xs \<in> set (map fst batch). length xs = n"
    using assms(1) by (auto simp: batch_def dest!: in_set_takeD in_set_dropD)
  have lc: "length (concat (map fst batch)) = n * b"
    using length_concat_blocks [OF all] by (simp add: b_def)
  have le: "b \<le> cap" by (simp add: b_def batch_def)
  then have le': "n * b \<le> n * cap" by (rule mult_le_mono2)
  have lv: "length (map snd batch) = b" by (simp add: b_def)
  have eq: "shim_iterate state coords vals cap st =
      ((Some (p + b), concat (map fst batch) @ drop (n * b) coords,
        map snd batch @ drop b vals), int b)"
    unfolding shim_iterate_def Let_def assms(4) batch_def [symmetric] b_def [symmetric] lc
    by (rule refl)
  have "length (concat (map fst batch) @ drop (n * b) coords) = n * cap"
    using lc le' assms(2) by simp
  moreover have "length (map snd batch @ drop b vals) = cap"
    using lv le assms(3) by simp
  moreover have "take (n * b) (concat (map fst batch) @ drop (n * b) coords) =
      concat (map fst batch)"
    using lc by simp
  moreover have "take b (map snd batch @ drop b vals) = map snd batch"
    using lv by simp
  ultimately show ?thesis
    unfolding batch_def [symmetric] b_def [symmetric] eq by blast
qed

lemma step_ctx_refill:
  assumes "bufferSize it \<le> bufferPos it + 1"
    and "shim_iterate (iterCtx c) (coordBuffer c) (valBuffer c) (bufferCapacity it)
           (tensorStorage it) = ((state', coords', vals'), n)"
    and "tensorOrder it \<le> length coords'" "vals' \<noteq> []"
  shows "step_ctx shim_iterate False c it =
           Inr (c\<lparr> coordBuffer := coords', valBuffer := vals', iterCtx := state',
                   curVal := (take (tensorOrder it) coords', vals' ! 0) \<rparr>,
                it\<lparr> bufferSize := n, bufferPos := 0 \<rparr>)"
  using assms by (simp add: step_ctx_def)

lemma step_ctx_next:
  assumes "\<not> bufferSize it \<le> bufferPos it + 1" "0 \<le> bufferPos it"
    and "(nat (bufferPos it) + 2) * tensorOrder it \<le> length (coordBuffer c)"
    and "nat (bufferPos it) + 1 < length (valBuffer c)"
  shows "step_ctx shim_iterate False c it =
           Inr (c\<lparr> curVal :=
                     (take (tensorOrder it)
                        (drop ((nat (bufferPos it) + 1) * tensorOrder it) (coordBuffer c)),
                      valBuffer c ! (nat (bufferPos it) + 1)) \<rparr>,
                it\<lparr> bufferPos := bufferPos it + 1 \<rparr>)"
proof -
  have "nat (bufferPos it + 1) = nat (bufferPos it) + 1"
    using assms(2) by simp
  then show ?thesis
    using assms by (simp add: step_ctx_def)
qed

lemma step_refill:
  assumes st: "tensorStorage it = st" and ar: "\<forall>r \<in> set st. length (fst r) = tensorOrder it"
    and cap: "0 < bufferCapacity it"
    and lc: "length (coordBuffer c) = tensorOrder it * bufferCapacity it"
    and lv: "length (valBuffer c) = bufferCapacity it"
    and state: "(case iterCtx c of None \<Rightarrow> 0 | Some p \<Rightarrow> p) = p"
    and p: "p \<le> length st"
    and refill: "bufferSize it \<le> bufferPos it + 1"
  shows "\<exists>c' it'. step_ctx shim_iterate False c it = Inr (c', it') \<and>
           positioned st c' it' p \<and> ctx it' = ctx it \<and> tensor it' = tensor it"
proof -
  define n where "n = tensorOrder it"
  define batch where "batch = take (bufferCapacity it) (drop p st)"
  define b where "b = length batch"
  from shim_iterate_result [OF ar lc lv state]
  obtain coords' vals' where
    k: "shim_iterate (iterCtx c) (coordBuffer c) (valBuffer c) (bufferCapacity it) st =
          ((Some (p + b), coords', vals'), int b)"
    and lc': "length coords' = n * bufferCapacity it"
    and lv': "length vals' = bufferCapacity it"
    and tc: "take (n * b) coords' = concat (map fst batch)"
    and tv: "take b vals' = map snd batch"
    unfolding batch_def b_def n_def by blast
  have b_le: "b \<le> bufferCapacity it" and pb: "p + b \<le> length st"
    using p by (simp_all add: b_def batch_def)
  have batch_take: "take b (drop p st) = batch"
    by (simp add: b_def batch_def min_def)
  have n_le: "n \<le> length coords'"
    using cap by (simp add: lc')
  have ne: "vals' \<noteq> []"
    using cap lv' by auto
  let ?c' = "c\<lparr> coordBuffer := coords', valBuffer := vals', iterCtx := Some (p + b),
                 curVal := (take n coords', vals' ! 0) \<rparr>"
  let ?it' = "it\<lparr> bufferSize := int b, bufferPos := 0 \<rparr>"
  have step: "step_ctx shim_iterate False c it = Inr (?c', ?it')"
    using step_ctx_refill [OF refill k [folded st] n_le [unfolded n_def] ne]
    by (simp add: n_def)
  have cur: "curVal ?c' = st ! p" if "p < length st"
  proof -
    have b0: "0 < b"
      using that cap by (simp add: b_def batch_def)
    then have hd: "batch ! 0 = st ! p"
      using that by (simp add: batch_def b_def)
    have all: "\<forall>xs \<in> set (map fst batch). length xs = n"
      using ar by (auto simp: batch_def n_def dest!: in_set_takeD in_set_dropD)
    have "take n (drop (0 * n) coords') = map fst batch ! 0"
      by (rule take_block_of_prefix [OF tc all]) (use b0 in \<open>simp_all add: b_def\<close>)
    then have c1: "take n coords' = fst (st ! p)"
      using b0 hd by (simp add: b_def)
    have "vals' ! 0 = take b vals' ! 0"
      using b0 by simp
    also have "\<dots> = map snd batch ! 0"
      by (simp only: tv)
    also have "\<dots> = snd (batch ! 0)"
      using b0 by (simp add: b_def)
    finally have c2: "vals' ! 0 = snd (st ! p)"
      by (simp add: hd)
    show ?thesis
      using c1 c2 by (simp add: prod_eq_iff)
  qed
  have "positioned st ?c' ?it' p"
    unfolding positioned_def
  proof (rule exI [of _ p], rule exI [of _ b], intro conjI)
    show "if p < length st
          then p \<le> p \<and> p < p + b \<and> bufferPos ?it' = int (p - p) \<and> curVal ?c' = st ! p
          else p = length st \<and> b = 0 \<and> p = length st"
    proof (cases "p < length st")
      case True
      then have "0 < b" using cap by (simp add: b_def batch_def)
      with True cur show ?thesis by simp
    next
      case False
      with p show ?thesis by (simp add: b_def batch_def)
    qed
  qed (use st ar cap lc' lv' b_le pb tc tv batch_take in \<open>simp_all add: n_def\<close>)
  with step show ?thesis by auto
qed

lemma step_positioned:
  assumes pos: "positioned st c it k" and k: "k < length st"
  shows "\<exists>c' it'. step_ctx shim_iterate False c it = Inr (c', it') \<and>
           positioned st c' it' (Suc k) \<and> ctx it' = ctx it \<and> tensor it' = tensor it"
proof -
  define n where "n = tensorOrder it"
  from pos k obtain q s where
    st: "tensorStorage it = st" and ar: "\<forall>r \<in> set st. length (fst r) = tensorOrder it"
    and cap: "0 < bufferCapacity it"
    and lc: "length (coordBuffer c) = tensorOrder it * bufferCapacity it"
    and lv: "length (valBuffer c) = bufferCapacity it"
    and size: "bufferSize it = int s" and s_le: "s \<le> bufferCapacity it"
    and state: "iterCtx c = Some (q + s)" and qs: "q + s \<le> length st"
    and tc: "take (tensorOrder it * s) (coordBuffer c) = concat (map fst (take s (drop q st)))"
    and tv: "take s (valBuffer c) = map snd (take s (drop q st))"
    and qk: "q \<le> k" "k < q + s" and bp: "bufferPos it = int (k - q)"
    unfolding positioned_def by (auto split: if_splits)
  show ?thesis
  proof (cases "Suc k = q + s")
    case True
    have refill: "bufferSize it \<le> bufferPos it + 1"
      using True qk by (simp add: size bp)
    have "(case iterCtx c of None \<Rightarrow> 0 | Some p \<Rightarrow> p) = Suc k"
      by (simp add: state True)
    from step_refill [OF st ar cap lc lv this _ refill] True qs
    show ?thesis by simp
  next
    case False
    with qk have lt: "Suc k < q + s" by simp
    define j where "j = Suc k - q"
    have j: "j < s" "q + j = Suc k" "nat (bufferPos it) + 1 = j"
      using lt qk by (simp_all add: j_def bp)
    have norefill: "\<not> bufferSize it \<le> bufferPos it + 1"
      using lt qk by (simp add: size bp)
    have len_batch: "length (take s (drop q st)) = s"
      using qs by simp
    have "(j + 1) * n \<le> s * n"
      using j(1) by (intro mult_le_mono1) simp
    also have "\<dots> \<le> length (coordBuffer c)"
      using s_le by (simp add: lc n_def)
    finally have in_c: "(nat (bufferPos it) + 2) * tensorOrder it \<le> length (coordBuffer c)"
      using j(3) by (simp add: n_def)
    have in_v: "nat (bufferPos it) + 1 < length (valBuffer c)"
      using j s_le by (simp add: lv)
    let ?c' = "c\<lparr> curVal :=
                     (take (tensorOrder it)
                        (drop ((nat (bufferPos it) + 1) * tensorOrder it) (coordBuffer c)),
                      valBuffer c ! (nat (bufferPos it) + 1)) \<rparr>"
    let ?it' = "it\<lparr> bufferPos := bufferPos it + 1 \<rparr>"
    have step: "step_ctx shim_iterate False c it = Inr (?c', ?it')"
      by (rule step_ctx_next [OF norefill _ in_c in_v]) (simp add: bp)
    have all: "\<forall>xs \<in> set (map fst (take s (drop q st))). length xs = tensorOrder it"
      using ar by (auto dest!: in_set_takeD in_set_dropD)
    have elem: "take s (drop q st) ! j = st ! Suc k"
      using j qs by simp
    have "take (tensorOrder it) (drop (j * tensorOrder it) (coordBuffer c)) =
            map fst (take s (drop q st)) ! j"
      by (rule take_block_of_prefix [OF tc all]) (use j len_batch in simp_all)
    then have c1: "take (tensorOrder it) (drop (j * tensorOrder it) (coordBuffer c)) =
            fst (st ! Suc k)"
      using j(1) len_batch elem by simp
    have "valBuffer c ! j = take s (valBuffer c) ! j"
      using j(1) by simp
    also have "\<dots> = map snd (take s (drop q st)) ! j"
      by (simp only: tv)
    also have "\<dots> = snd (st ! Suc k)"
      using j(1) len_batch elem by simp
    finally have c2: "valBuffer c ! j = snd (st ! Suc k)" .
    have cur: "curVal ?c' = st ! Suc k"
      unfolding j(3) using c1 c2 by (simp add: prod_eq_iff)
    have sk: "Suc k < length st"
      using lt qs by simp
    have "positioned st ?c' ?it' (Suc k)"
      unfolding positioned_def
    proof (rule exI [of _ q], rule exI [of _ s], intro conjI)
      show "if Suc k < length st
            then q \<le> Suc k \<and> Suc k < q + s \<and> bufferPos ?it' = int (Suc k - q) \<and>
                 curVal ?c' = st ! Suc k
            else Suc k = length st \<and> s = 0 \<and> q = length st"
        using sk qk lt cur by (simp add: bp)
    qed (use st ar cap lc lv size s_le state qs tc tv in simp_all)
    with step show ?thesis by auto
  qed
qed

lemma range_for_positioned:
  assumes "ctx it = Some a" "a < length h" "snd (h ! a) \<le> 1"
    and "positioned st (fst (h ! a)) it k"
    and "tensor end' = tensor it" "isEnd end'"
  shows "range_for body h it end' acc = Some (run_body body (drop k st) acc)"
  using assms(1-5)
proof (induction "length st - k" arbitrary: h it k acc)
  case 0
  then have k: "k = length st" and e: "isEnd it"
    unfolding positioned_def isEnd_def by (auto split: if_splits)
  then show ?case
    using 0 assms(6)
    by (subst range_for.simps) (simp add: operator_ne_def operator_eq_def)
next
  case (Suc m)
  then have k: "k < length st" by simp
  with Suc.prems(4) have ne: "\<not> isEnd it" and cur: "curVal (fst (h ! a)) = st ! k"
    unfolding positioned_def isEnd_def by (auto split: if_splits)
  have cond: "operator_ne h it end' = Inr True"
    using ne assms(6) Suc.prems(5) by (simp add: operator_ne_def operator_eq_def)
  have deref: "operator_deref h it = Inr (st ! k)"
    using Suc.prems(1,2) cur by (simp add: operator_deref_def deref_ctx_def)
  from step_positioned [OF Suc.prems(4) k] obtain c' it' where
    step: "step_ctx shim_iterate False (fst (h ! a)) it = Inr (c', it')"
    and pos': "positioned st c' it' (Suc k)" and same: "ctx it' = ctx it" "tensor it' = tensor it"
    by blast
  let ?h' = "h[a := (c', snd (h ! a))]"
  have adv: "advance shim_iterate h it = Inr (?h', it')"
    using advance_unshared [OF Suc.prems(1,2), of shim_iterate] Suc.prems(3) step by simp
  have IH: "range_for body ?h' it' end' acc' = Some (run_body body (drop (Suc k) st) acc')"
    for acc'
  proof (rule Suc.hyps(1))
    show "m = length st - Suc k" using Suc.hyps(2) by simp
    show "ctx it' = Some a" using same Suc.prems(1) by simp
    show "a < length ?h'" using Suc.prems(2) by simp
    show "snd (?h' ! a) \<le> 1" using Suc.prems(2,3) by simp
    show "positioned st (fst (?h' ! a)) it' (Suc k)" using pos' Suc.prems(2) by simp
    show "tensor end' = tensor it'" using same Suc.prems(5) by simp
  qed
  have dr: "drop k st = st ! k # drop (Suc k) st"
    using k by (simp add: Cons_nth_drop_Suc)
  show ?case
    by (subst range_for.simps)
       (simp add: cond deref adv IH dr split: sum.splits)
qed

section \<open>Loops over a tensor\<close>

lemma ctor_end:
  "const_iterator_ctor h t True =
     Inr (h, \<lparr> tensor = handle t, tensorStorage = getStorage t, tensorOrder = getOrder t,
               bufferCapacity = 100, bufferSize = 0, bufferPos = 0, ctx = None \<rparr>)"
  by (simp add: const_iterator_ctor_def)

lemma ctor_begin:
  assumes "\<forall>r \<in> set (storage t). length (fst r) = getOrder t"
  shows "\<exists>c it. const_iterator_ctor h t False = Inr (h @ [(c, 1)], it) \<and>
           ctx it = Some (length h) \<and> positioned (storage t) c it 0 \<and> tensor it = handle t"
proof -
  let ?c0 = "Context_ctor (getOrder t) 100 None :: 'a Context"
  let ?it0 = "\<lparr> tensor = handle t, tensorStorage = getStorage t, tensorOrder = getOrder t,
                 bufferCapacity = 100, bufferSize = 0, bufferPos = 0,
                 ctx = Some (length h) \<rparr> :: 'a const_iterator"
  let ?h1 = "h @ [(?c0, 1)]"
  have ctor: "const_iterator_ctor h t False = advance shim_iterate ?h1 ?it0"
    by (simp add: const_iterator_ctor_def make_shared_def)
  have "\<exists>c' it'. step_ctx shim_iterate False ?c0 ?it0 = Inr (c', it') \<and>
           positioned (storage t) c' it' 0 \<and> ctx it' = ctx ?it0 \<and> tensor it' = tensor ?it0"
    by (rule step_refill) (use assms in \<open>simp_all add: getStorage_def Context_ctor_def\<close>)
  then obtain c' it' where
    step: "step_ctx shim_iterate False ?c0 ?it0 = Inr (c', it')"
    and pos: "positioned (storage t) c' it' 0" and same: "ctx it' = Some (length h)"
      "tensor it' = handle t"
    by auto
  have "advance shim_iterate ?h1 ?it0 = Inr (?h1[length h := (c', snd (?h1 ! length h))], it')"
    using advance_unshared [of ?it0 "length h" ?h1 shim_iterate] step by simp
  then have "const_iterator_ctor h t False = Inr (h @ [(c', 1)], it')"
    by (simp add: ctor)
  with pos same show ?thesis by blast
qed

lemma ctor_fields:
  assumes "const_iterator_ctor h t b = Inr (h', it)"
  shows "tensorStorage it = storage t \<and> tensor it = handle t"
proof (cases b)
  case True
  with assms show ?thesis by (auto simp: const_iterator_ctor_def getStorage_def)
next
  case False
  let ?c0 = "Context_ctor (getOrder t) 100 None :: 'a Context"
  let ?it0 = "\<lparr> tensor = handle t, tensorStorage = getStorage t, tensorOrder = getOrder t,
                 bufferCapacity = 100, bufferSize = 0, bufferPos = 0,
                 ctx = Some (length h) \<rparr> :: 'a const_iterator"
  let ?h1 = "h @ [(?c0, 1)]"
  have "const_iterator_ctor h t False = advance shim_iterate ?h1 ?it0"
    by (simp add: const_iterator_ctor_def make_shared_def)
  also have "\<dots> = (case step_ctx shim_iterate False (fst (?h1 ! length h)) ?it0 of
              Inl e \<Rightarrow> Inl e
            | Inr (c', it') \<Rightarrow> Inr (?h1[length h := (c', snd (?h1 ! length h))], it'))"
    by (rule advance_unshared) simp_all
  finally obtain c' where "step_ctx shim_iterate False ?c0 ?it0 = Inr (c', it)"
    using assms False by (auto split: sum.splits)
  from step_ctx_fields [OF this] show ?thesis by (simp add: getStorage_def)
qed

lemma range_for_tensor:
  assumes "\<forall>r \<in> set (storage t). length (fst r) = getOrder t"
  shows "\<exists>h it e. Tensor_begin_const h0 t = Inr (h, it) \<and>
           Tensor_end_const h t = Inr (h, e) \<and>
           (\<forall>body acc. range_for body h it e acc = Some (run_body body (storage t) acc))"
proof -
  from ctor_begin [OF assms, of h0] obtain c it where
    b: "const_iterator_ctor h0 t False = Inr (h0 @ [(c, 1)], it)"
    and ctx: "ctx it = Some (length h0)" and pos: "positioned (storage t) c it 0"
    and tn: "tensor it = handle t"
    by blast
  let ?h = "h0 @ [(c, 1)]"
  let ?e = "\<lparr> tensor = handle t, tensorStorage = getStorage t, tensorOrder = getOrder t,
               bufferCapacity = 100, bufferSize = 0, bufferPos = 0, ctx = None \<rparr>
            :: 'a const_iterator"
  have "range_for body ?h it ?e acc = Some (run_body body (drop 0 (storage t)) acc)"
    for body :: "int list \<times> 'a \<Rightarrow> 'b \<Rightarrow> error + ('c + 'b)" and acc
    by (rule range_for_positioned [OF ctx]) (use pos tn in \<open>simp_all add: isEnd_def\<close>)
  then show ?thesis
    using b ctor_end [of ?h t]
    by (auto simp: Tensor_begin_const_def Tensor_end_const_def wrapper_begin_def
        wrapper_end_def TensorBase_iterator_const_def)
qed

lemma run_body_collect:
  "run_body (\<lambda>v out. Inr (Inr (out @ [v]))) xs acc = Inr (Inr (acc @ xs))"
  by (induction xs arbitrary: acc) simp_all

lemma yielded_storage:
  assumes "\<forall>r \<in> set (storage t). length (fst r) = getOrder t"
  shows "yielded t = Some (Inr (storage t))"
proof -
  from range_for_tensor [OF assms, of "[]"] obtain h it e where
    "Tensor_begin_const [] t = Inr (h, it)" "Tensor_end_const h t = Inr (h, e)"
    "\<And>(body :: int list \<times> 'a \<Rightarrow> (int list \<times> 'a) list
          \<Rightarrow> error + ((int list \<times> 'a) list + (int list \<times> 'a) list)) acc.
       range_for body h it e acc = Some (run_body body (storage t) acc)"
    by blast
  then show ?thesis
    by (simp add: yielded_def run_body_collect)
qed

lemma yielded_nonconst_synced:
  fixes t :: "'v::comm_monoid_add TensorBase"
  assumes "syncValues t = Inr t'"
    and "\<forall>r \<in> set (storage t'). length (fst r) = getOrder t'"
  shows "yielded_nonconst t = Some (Inr (storage t', t'))"
proof -
  have again: "syncValues t' = Inr t'"
    using syncValues_twice [OF assms(1)] by simp
  from range_for_tensor [OF assms(2), of "[]"] obtain h it e where
    b: "Tensor_begin_const [] t' = Inr (h, it)" and e: "Tensor_end_const h t' = Inr (h, e)"
    and loop: "\<And>(body :: int list \<times> 'v \<Rightarrow> (int list \<times> 'v) list
                    \<Rightarrow> error + ((int list \<times> 'v) list + (int list \<times> 'v) list)) acc.
       range_for body h it e acc = Some (run_body body (storage t') acc)"
    by blast
  have b': "Tensor_begin [] t = Inr (t', h, it)"
    using b assms(1)
    by (simp add: Tensor_begin_def Tensor_begin_const_def TensorBase_iterator_def
        TensorBase_iterator_const_def)
  have e': "Tensor_end h t' = Inr (t', h, e)"
    using e again
    by (simp add: Tensor_end_def Tensor_end_const_def TensorBase_iterator_def
        TensorBase_iterator_const_def)
  show ?thesis
    by (simp add: yielded_nonconst_def b' e' loop run_body_collect)
qed

lemma run_body_find:
  "run_body (\<lambda>v (u::unit). if fst v = coordinate then Inr (Inl (snd v)) else Inr (Inr u)) xs ()
     = (case map_of xs coordinate of None \<Rightarrow> Inr (Inr ()) | Some v \<Rightarrow> Inr (Inl v))"
  by (induction xs) auto

lemma at_synced:
  fixes t :: "'v::comm_monoid_add TensorBase"
  assumes "length coordinate = getOrder t" "CType = getComponentType t"
    and "syncValues t = Inr t'"
    and "\<forall>r \<in> set (storage t'). length (fst r) = getOrder t'"
  shows "TensorBase_at CType coordinate t =
           Some (Inr (case map_of (storage t') coordinate of None \<Rightarrow> 0 | Some v \<Rightarrow> v, t'))"
proof -
  have again: "syncValues t' = Inr t'"
    using assms(3) evaluate_clears_flags evaluate_no_stage_pending
    by (metis syncValues_def)
  from range_for_tensor [OF assms(4), of "[]"] obtain h it e where
    b: "Tensor_begin_const [] t' = Inr (h, it)" and e: "Tensor_end_const h t' = Inr (h, e)"
    and loop: "\<And>(body :: int list \<times> 'v \<Rightarrow> unit \<Rightarrow> error + ('v + unit)) acc.
       range_for body h it e acc = Some (run_body body (storage t') acc)"
    by blast
  have b': "Tensor_begin [] t' = Inr (t', h, it)"
    using b again
    by (simp add: Tensor_begin_def Tensor_begin_const_def TensorBase_iterator_def
        TensorBase_iterator_const_def)
  have e': "Tensor_end h t' = Inr (t', h, e)"
    using e again
    by (simp add: Tensor_end_def Tensor_end_const_def TensorBase_iterator_def
        TensorBase_iterator_const_def)
  show ?thesis
    using assms(1,2,3) b' e'
    by (simp add: TensorBase_at_def loop run_body_find split: option.splits)
qed

section \<open>Iteration and at agree\<close>

text \<open>
  C3: let \<open>T\<close> be a packed tensor: no stage is pending, and the stored coordinates have
  the tensor's order and are distinct. Then iterating \<open>T\<close> yields exactly the stored
  components, \<open>at\<close> returns the value of every stored component at its coordinate, and
  \<open>at\<close> returns zero at every coordinate of the tensor's order that is not stored (in
  range or not); in both cases \<open>at\<close> leaves the tensor as it was.
\<close>

theorem iterate_at_round_trip:
  fixes t :: "'v::comm_monoid_add TensorBase"
  assumes "no_stage_pending t" and "well_formed_storage t" and "CType = getComponentType t"
  shows "yielded t = Some (Inr (storage t)) \<and>
         (\<forall>c v. (c, v) \<in> set (storage t) \<longrightarrow> TensorBase_at CType c t = Some (Inr (v, t))) \<and>
         (\<forall>c. length c = getOrder t \<and> c \<notin> fst ` set (storage t) \<longrightarrow>
              TensorBase_at CType c t = Some (Inr (0, t)))"
proof -
  from assms(2) have ar: "\<forall>r \<in> set (storage t). length (fst r) = getOrder t"
    and di: "distinct (map fst (storage t))"
    by (simp_all add: well_formed_storage_def list_all_iff)
  have sync: "syncValues t = Inr t"
    by (rule syncValues_no_stage_pending [OF assms(1)])
  have present: "TensorBase_at CType c t = Some (Inr (v, t))" if "(c, v) \<in> set (storage t)" for c v
  proof -
    have "length c = getOrder t" using ar that by auto
    moreover have "map_of (storage t) c = Some v" using di that by simp
    ultimately show ?thesis
      using at_synced [OF _ assms(3) sync ar, of c] by simp
  qed
  have absent: "TensorBase_at CType c t = Some (Inr (0, t))"
    if "length c = getOrder t \<and> c \<notin> fst ` set (storage t)" for c
  proof -
    have "map_of (storage t) c = None" using that by (simp add: map_of_eq_None_iff)
    then show ?thesis
      using at_synced [OF _ assms(3) sync ar, of c] that by simp
  qed
  from yielded_storage [OF ar] present absent show ?thesis by blast
qed

theorem iterate_at_round_trip_witness:
  "no_stage_pending example_matrix \<and> well_formed_storage example_matrix \<and>
   getComponentType example_matrix = Datatype KInt 32 \<and>
   storage example_matrix = [([0, 1], 5), ([1, 0], 7)] \<and>
   yielded example_matrix = Some (Inr [([0, 1], 5), ([1, 0], 7)]) \<and>
   TensorBase_at (Datatype KInt 32) [0, 1] example_matrix = Some (Inr (5, example_matrix)) \<and>
   TensorBase_at (Datatype KInt 32) [1, 0] example_matrix = Some (Inr (7, example_matrix)) \<and>
   TensorBase_at (Datatype KInt 32) [1, 1] example_matrix = Some (Inr (0, example_matrix))"
proof -
  have h1: "no_stage_pending example_matrix"
    by (simp add: no_stage_pending_def example_matrix_def Tensor_ctor_def)
  have st: "storage example_matrix = [([0, 1], 5), ([1, 0], 7)]"
    by (simp add: example_matrix_def)
  have ord: "getOrder example_matrix = 2"
    by (simp add: getOrder_def example_matrix_def Tensor_ctor_def)
  have h2: "well_formed_storage example_matrix"
    by (simp add: well_formed_storage_def st ord)
  have h3: "Datatype KInt 32 = getComponentType example_matrix"
    by (simp add: getComponentType_def example_matrix_def Tensor_ctor_def)
  note th = iterate_at_round_trip [OF h1 h2 h3, unfolded st]
  from th have y: "yielded example_matrix = Some (Inr [([0, 1], 5), ([1, 0], 7)])"
    by (rule conjunct1)
  from th have a1: "TensorBase_at (Datatype KInt 32) [0, 1] example_matrix =
      Some (Inr (5, example_matrix))"
    and a2: "TensorBase_at (Datatype KInt 32) [1, 0] example_matrix =
      Some (Inr (7, example_matrix))"
    by simp_all
  from th [THEN conjunct2, THEN conjunct2, THEN spec, of "[1, 1]"]
  have a3: "TensorBase_at (Datatype KInt 32) [1, 1] example_matrix =
      Some (Inr (0, example_matrix))"
    by (simp add: ord)
  from h1 h2 h3 st y a1 a2 a3 show ?thesis by simp
qed

section \<open>Reads and syncValues\<close>

text \<open>
  C2, as stated, fails for iteration through the const overloads: \<open>iterator() const\<close>, and
  with it \<open>begin() const\<close>, does not call \<open>syncValues()\<close>. A tensor with two buffered
  insertions and \<open>needsPack\<close> set is iterated as empty, while after \<open>syncValues()\<close> it
  yields the packed component.
\<close>

theorem const_iteration_reads_unsynced:
  "needsPack pending_matrix \<and>
   coordinateBuffer_records pending_matrix = [([0, 1], 5), ([0, 1], 6)] \<and>
   TensorBase_iterator_const pending_matrix = iterator_wrapper pending_matrix \<and>
   yielded pending_matrix = Some (Inr []) \<and>
   syncValues pending_matrix = Inr packed_matrix \<and>
   yielded packed_matrix = Some (Inr [([0, 1], 11)]) \<and>
   yielded pending_matrix \<noteq> yielded packed_matrix"
proof -
  have a: "needsPack pending_matrix"
    "coordinateBuffer_records pending_matrix = [([0, 1], 5), ([0, 1], 6)]"
    by (simp_all add: pending_matrix_def)
  have b: "yielded pending_matrix = Some (Inr [])"
    "yielded packed_matrix = Some (Inr [([0, 1], 11)])"
    by code_simp+
  have c: "syncValues pending_matrix = Inr packed_matrix"
    by (simp add: syncValues_def evaluate_pending_matrix)
  from a b c show ?thesis by (simp add: TensorBase_iterator_const_def)
qed

text \<open>
  C2, amended: \<open>at\<close> and the non-const \<open>iterator()\<close>, \<open>begin()\<close> and \<open>end()\<close> call
  \<open>syncValues()\<close> before anything is read: when they return, the tensor is the one
  \<open>syncValues()\<close> produced, no stage is pending on it, the iterator reads its storage,
  and the value \<open>at\<close> returned is the value \<open>at\<close> returns on that synced tensor. The
  const overloads read the tensor as it is (the counterexample above); equality
  comparison and printing are defined outside the sources and are not covered.
\<close>

theorem reads_sync_first:
  fixes t :: "'v::comm_monoid_add TensorBase"
  shows "(TensorBase_at CType coordinate t = Some (Inr (v, t')) \<longrightarrow>
            syncValues t = Inr t' \<and> no_stage_pending t' \<and>
            TensorBase_at CType coordinate t' = Some (Inr (v, t'))) \<and>
         (TensorBase_iterator t = Inr (t1, w) \<longrightarrow>
            syncValues t = Inr t1 \<and> no_stage_pending t1 \<and> wrapped w = t1) \<and>
         (Tensor_begin h t = Inr (t2, h2, it) \<longrightarrow>
            syncValues t = Inr t2 \<and> no_stage_pending t2 \<and>
            Tensor_begin_const h t2 = Inr (h2, it) \<and> tensorStorage it = storage t2) \<and>
         (Tensor_end h t = Inr (t3, h3, e) \<longrightarrow>
            syncValues t = Inr t3 \<and> no_stage_pending t3 \<and> tensorStorage e = storage t3)"
proof (intro conjI impI)
  assume at: "TensorBase_at CType coordinate t = Some (Inr (v, t'))"
  then have ar: "length coordinate = getOrder t" and ty: "getComponentType t = CType"
    by (auto simp: TensorBase_at_def split: if_splits)
  from at ar ty obtain ta where s: "syncValues t = Inr ta"
    by (auto simp: TensorBase_at_def split: sum.splits)
  note sa = syncValues_twice [OF s]
  have b: "Tensor_begin [] ta = (case wrapper_begin [] (iterator_wrapper ta) of
             Inl e \<Rightarrow> Inl e | Inr (h', it) \<Rightarrow> Inr (ta, h', it))"
    using sa by (simp add: Tensor_begin_def TensorBase_iterator_def)
  have e: "Tensor_end g ta = (case wrapper_end g (iterator_wrapper ta) of
             Inl e \<Rightarrow> Inl e | Inr (h', it) \<Rightarrow> Inr (ta, h', it))" for g
    using sa by (simp add: Tensor_end_def TensorBase_iterator_def)
  have rest: "TensorBase_at CType coordinate t = TensorBase_at CType coordinate ta"
    using ar ty s sa evaluate_same_type [of t ta]
    by (simp add: TensorBase_at_def syncValues_def getOrder_def getComponentType_def)
  have "t' = ta"
    using at ar ty s
    by (auto simp: TensorBase_at_def b e split: sum.splits option.splits)
  with s sa at rest
  show "syncValues t = Inr t'" "no_stage_pending t'"
    "TensorBase_at CType coordinate t' = Some (Inr (v, t'))"
    by simp_all
next
  assume "TensorBase_iterator t = Inr (t1, w)"
  then have "syncValues t = Inr t1" "wrapped w = t1"
    by (auto simp: TensorBase_iterator_def split: sum.splits)
  with syncValues_twice [of t t1]
  show "syncValues t = Inr t1" "no_stage_pending t1" "wrapped w = t1" by simp_all
next
  assume b: "Tensor_begin h t = Inr (t2, h2, it)"
  then have s: "syncValues t = Inr t2"
    and c: "const_iterator_ctor h t2 False = Inr (h2, it)"
    by (auto simp: Tensor_begin_def TensorBase_iterator_def wrapper_begin_def
        split: sum.splits)
  from s syncValues_twice [OF s] c ctor_fields [OF c]
  show "syncValues t = Inr t2" "no_stage_pending t2"
    "Tensor_begin_const h t2 = Inr (h2, it)" "tensorStorage it = storage t2"
    by (simp_all add: Tensor_begin_const_def TensorBase_iterator_const_def wrapper_begin_def)
next
  assume "Tensor_end h t = Inr (t3, h3, e)"
  then have s: "syncValues t = Inr t3"
    and c: "const_iterator_ctor h t3 True = Inr (h3, e)"
    by (auto simp: Tensor_end_def TensorBase_iterator_def wrapper_end_def
        split: sum.splits)
  from s syncValues_twice [OF s] ctor_fields [OF c]
  show "syncValues t = Inr t3" "no_stage_pending t3" "tensorStorage e = storage t3"
    by simp_all
qed

theorem reads_sync_first_witness:
  "needsPack pending_matrix \<and>
   TensorBase_at (Datatype KInt 32) [0, 1] pending_matrix = Some (Inr (11, packed_matrix)) \<and>
   syncValues pending_matrix = Inr packed_matrix \<and> no_stage_pending packed_matrix \<and>
   TensorBase_at (Datatype KInt 32) [0, 1] packed_matrix = Some (Inr (11, packed_matrix)) \<and>
   TensorBase_iterator pending_matrix = Inr (packed_matrix, iterator_wrapper packed_matrix) \<and>
   Tensor_begin [] pending_matrix = Inr (packed_matrix, packed_heap, packed_begin) \<and>
   Tensor_begin_const [] packed_matrix = Inr (packed_heap, packed_begin) \<and>
   tensorStorage packed_begin = storage packed_matrix \<and>
   storage packed_matrix = [([0, 1], 11)] \<and>
   operator_deref packed_heap packed_begin = Inr ([0, 1], 11)"
proof -
  have s: "syncValues pending_matrix = Inr packed_matrix"
    by (simp add: syncValues_def evaluate_pending_matrix)
  have st: "storage packed_matrix = [([0, 1], 11)]"
    by (simp add: packed_matrix_def)
  have ord: "getOrder pending_matrix = 2" "getOrder packed_matrix = 2"
    "Datatype KInt 32 = getComponentType pending_matrix"
    by (simp_all add: getOrder_def getComponentType_def pending_matrix_def packed_matrix_def
        matrix_2x2_def Tensor_ctor_def)
  have at: "TensorBase_at (Datatype KInt 32) [0, 1] pending_matrix =
      Some (Inr (11, packed_matrix))"
    using at_synced [OF _ ord(3) s, of "[0, 1]"] by (simp add: ord st)
  have it: "TensorBase_iterator pending_matrix =
      Inr (packed_matrix, iterator_wrapper packed_matrix)"
    by (simp add: TensorBase_iterator_def s)
  have bc: "Tensor_begin_const [] packed_matrix = Inr (packed_heap, packed_begin)"
    by code_simp
  have b: "Tensor_begin [] pending_matrix = Inr (packed_matrix, packed_heap, packed_begin)"
    using bc by (simp add: Tensor_begin_def it Tensor_begin_const_def
        TensorBase_iterator_const_def)
  have d: "operator_deref packed_heap packed_begin = Inr ([0, 1], 11)"
    by code_simp
  have p: "needsPack pending_matrix"
    by (simp add: pending_matrix_def)
  from reads_sync_first [of "Datatype KInt 32" "[0, 1]" pending_matrix 11 packed_matrix
      packed_matrix "iterator_wrapper packed_matrix" "[]" packed_matrix packed_heap
      packed_begin] at it b st d p
  show ?thesis by simp
qed

section \<open>Contract violations\<close>

text \<open>
  C7, as stated, fails on the content of the message: for a wrong number of
  coordinates \<open>insert\<close> and \<open>at\<close> stream the fixed text \<open>Wrong number of indices\<close>. The
  message is the same whatever the order of the tensor and the number of coordinates
  given, so it identifies neither.
\<close>

theorem arity_message_is_fixed:
  "getOrder example_matrix = 2 \<and> getOrder (full_scalar_buffer 0) = 0 \<and>
   TensorBase_insert (Datatype KInt 32) [0] 5 example_matrix =
     Inl (taco_uassert [Str ''Wrong number of indices'']) \<and>
   TensorBase_insert (Datatype KInt 32) [0, 1, 2] 5 example_matrix =
     Inl (taco_uassert [Str ''Wrong number of indices'']) \<and>
   TensorBase_insert (Datatype KInt 32) [0] 5 (full_scalar_buffer 0) =
     Inl (taco_uassert [Str ''Wrong number of indices'']) \<and>
   TensorBase_at (Datatype KInt 32) [0] example_matrix =
     Some (Inl (taco_uassert [Str ''Wrong number of indices''])) \<and>
   TensorBase_at (Datatype KInt 32) [0, 1, 2] example_matrix =
     Some (Inl (taco_uassert [Str ''Wrong number of indices'']))"
  by (simp add: TensorBase_insert_def TensorBase_at_def getOrder_def example_matrix_def
      full_scalar_buffer_def Tensor_ctor_def)

text \<open>
  C7, amended: a call of \<open>insert\<close> or \<open>at\<close> with a number of coordinates other than the
  order fails with the fixed message \<open>Wrong number of indices\<close>; with the right
  number of coordinates and a value type other than the component type it fails with
  a message that names the value type and the component type; \<open>getCSRArrays\<close> on a
  tensor whose format is not CSR fails with a message that names the tensor. In each
  case the operation stops at the assertion: no record is written, no value is read
  and nothing is converted.
\<close>

theorem contract_violations_fail:
  fixes t :: "'v::comm_monoid_add TensorBase"
  shows
  "(length coordinate \<noteq> getOrder t \<longrightarrow>
      TensorBase_insert CType coordinate v t =
        Inl (taco_uassert [Str ''Wrong number of indices'']) \<and>
      TensorBase_at CType coordinate t =
        Some (Inl (taco_uassert [Str ''Wrong number of indices'']))) \<and>
   (length coordinate = getOrder t \<and> CType \<noteq> getComponentType t \<longrightarrow>
      TensorBase_insert CType coordinate v t =
        Inl (taco_uassert
          [Str (''Cannot insert a value of type '' @ [CHR 0x27]), Ty CType,
           Str (CHR 0x27 # '' ''), Str ''into a tensor with component type '',
           Ty (getComponentType t)]) \<and>
      TensorBase_at CType coordinate t =
        Some (Inl (taco_uassert
          [Str (''Cannot get a value of type '' @ [CHR 0x27]), Ty CType,
           Str (CHR 0x27 # '' ''), Str ''from a tensor with component type '',
           Ty (getComponentType t)]))) \<and>
   (getFormat t \<noteq> CSR \<longrightarrow>
      getCSRArrays getIndexArray getValues t =
        Inl (taco_uassert
          [Str ''The tensor '', Str (getName t), Str '' is not defined in the CSR format'']))"
  by (auto simp: TensorBase_insert_def TensorBase_at_def getCSRArrays_def)

theorem contract_violations_fail_witness:
  "length [0::int] \<noteq> getOrder example_matrix \<and>
   TensorBase_insert (Datatype KInt 32) [0] 5 example_matrix =
     Inl (taco_uassert [Str ''Wrong number of indices'']) \<and>
   TensorBase_at (Datatype KInt 32) [0] example_matrix =
     Some (Inl (taco_uassert [Str ''Wrong number of indices''])) \<and>
   length [0::int, 1] = getOrder example_matrix \<and>
   Datatype KFloat 64 \<noteq> getComponentType example_matrix \<and>
   TensorBase_insert (Datatype KFloat 64) [0, 1] 5 example_matrix =
     Inl (taco_uassert
       [Str (''Cannot insert a value of type '' @ [CHR 0x27]), Ty (Datatype KFloat 64),
        Str (CHR 0x27 # '' ''), Str ''into a tensor with component type '',
        Ty (Datatype KInt 32)]) \<and>
   TensorBase_at (Datatype KFloat 64) [0, 1] example_matrix =
     Some (Inl (taco_uassert
       [Str (''Cannot get a value of type '' @ [CHR 0x27]), Ty (Datatype KFloat 64),
        Str (CHR 0x27 # '' ''), Str ''from a tensor with component type '',
        Ty (Datatype KInt 32)])) \<and>
   getFormat csc_matrix \<noteq> CSR \<and>
   getCSRArrays (\<lambda>st m k. Array type_int []) (map snd) csc_matrix =
     Inl (taco_uassert
       [Str ''The tensor '', Str ''C'', Str '' is not defined in the CSR format''])"
proof -
  have ord: "getOrder example_matrix = 2"
    and ty: "getComponentType example_matrix = Datatype KInt 32"
    by (simp_all add: getOrder_def getComponentType_def example_matrix_def Tensor_ctor_def)
  have fmt: "getFormat csc_matrix \<noteq> CSR" and nm: "getName csc_matrix = ''C''"
    by (simp_all add: getFormat_def getName_def csc_matrix_def Tensor_ctor_def CSR_def CSC_def)
  from contract_violations_fail [of "[0]" example_matrix "Datatype KInt 32" 5]
    contract_violations_fail [of "[0, 1]" example_matrix "Datatype KFloat 64" 5]
    contract_violations_fail [of _ csc_matrix _ _ "\<lambda>st m k. Array type_int []" "map snd"]
    ord ty fmt nm
  show ?thesis by simp
qed

section \<open>Scalar access\<close>

lemma assign_all_setFromComponents:
  "assign_all CType access vs t =
     setFromComponents CType (map (\<lambda>v. (indices access, v)) vs) t"
  by (induction vs arbitrary: t) (simp_all add: ScalarAccess_assign_def split: sum.splits)

text \<open>
  C9: for a scalar access built by \<open>T(indices)\<close>, assigning a scalar is \<open>insert\<close> at the
  indices and reading it is \<open>at\<close>. On a tensor with an empty coordinate buffer (and no
  assignment or later stage pending), assigning the values \<open>v1..vn\<close> in turn appends
  one record per value, nothing is overwritten, and after \<open>pack()\<close> the value stored
  at the indices is \<open>v1 + ... + vn\<close>; reading the access after the assignments packs
  the tensor and returns that sum.
\<close>

theorem scalar_access_inserts:
  fixes t :: "'v::comm_monoid_add TensorBase"
  assumes "buffer_ok t" and "coordinateBuffer_records t = []"
    and "CType = getComponentType t"
    and "Tensor_call idx t = Inr access" and "vs \<noteq> []"
    and "assignment t = None" and "\<not> needsCompile t" and "\<not> needsAssemble t"
    and "\<not> needsCompute t"
  shows "ScalarAccess_assign CType access v t = TensorBase_insert CType idx v t \<and>
         ScalarAccess_read CType access t = TensorBase_at CType idx t \<and>
         (\<exists>t'. assign_all CType access vs t = Inr t' \<and>
               coordinateBuffer_records t' = map (\<lambda>v. (idx, v)) vs \<and>
               stored (TensorBase_pack t') idx = Some (sum_list vs) \<and>
               ScalarAccess_read CType access t' =
                 Some (Inr (sum_list vs, TensorBase_pack t')))"
proof -
  from assms(4) have len: "length idx = getOrder t" and acc: "indices access = idx"
    by (auto simp: Tensor_call_def split: if_splits)
  let ?cs = "map (\<lambda>v. (idx, v)) vs"
  have "\<forall>c \<in> set ?cs. length (fst c) = getOrder t"
    using len by simp
  from setFromComponents_ok [OF assms(1) this assms(3)] assms(2)
  obtain t' where t': "setFromComponents CType ?cs t = Inr t'" "buffer_ok t'"
    "same_tensor_type t t'" "coordinateBuffer_records t' = ?cs"
    by auto
  have all: "assign_all CType access vs t = Inr t'"
    using t'(1) by (simp add: assign_all_setFromComponents acc)
  have flt: "filter (\<lambda>r. fst r = idx) ?cs = ?cs"
    by (induction vs) simp_all
  have sum: "sum_list (map snd ?cs) = sum_list vs"
    by (simp add: comp_def)
  have inset: "idx \<in> fst ` set ?cs"
    using assms(5) by (cases vs) auto
  have lookup: "map_of (pack_records ?cs) idx = Some (sum_list vs)"
    unfolding map_of_pack_records flt sum using inset by (simp only: if_True)
  have stored: "stored (TensorBase_pack t') idx = Some (sum_list vs)"
    using lookup by (simp add: stored_def TensorBase_pack_def t'(4))
  have np: "needsPack t'"
    using setFromComponents_needsPack [OF t'(1)] assms(5) by simp
  have sync: "syncValues t' = Inr (TensorBase_pack t')"
    using np t'(3) assms(6-9)
    by (simp add: syncValues_def evaluate_only_pack same_tensor_type_def)
  have ord': "getOrder t' = getOrder t" "getComponentType t' = getComponentType t"
    using same_tensor_type_order [OF t'(3)] by simp_all
  have ordp: "getOrder (TensorBase_pack t') = getOrder t"
    using ord'(1) by (simp add: getOrder_def TensorBase_pack_def)
  have st_pack: "storage (TensorBase_pack t') = pack_records ?cs"
    by (simp add: TensorBase_pack_def t'(4))
  have sub: "set (pack_records ?cs) \<subseteq> {idx} \<times> UNIV"
    by (auto simp: pack_records_def)
  have ar: "\<forall>r \<in> set (storage (TensorBase_pack t')). length (fst r) = getOrder (TensorBase_pack t')"
    unfolding st_pack ordp using sub len by auto
  have "TensorBase_at CType idx t' =
      Some (Inr (case map_of (storage (TensorBase_pack t')) idx of None \<Rightarrow> 0 | Some v \<Rightarrow> v,
                 TensorBase_pack t'))"
    by (rule at_synced [OF _ _ sync ar]) (simp_all add: len ord' assms(3))
  also have "map_of (storage (TensorBase_pack t')) idx = Some (sum_list vs)"
    by (simp only: st_pack lookup)
  finally have read: "ScalarAccess_read CType access t' =
      Some (Inr (sum_list vs, TensorBase_pack t'))"
    by (simp add: ScalarAccess_read_def acc)
  have a1: "ScalarAccess_assign CType access v t = TensorBase_insert CType idx v t"
    by (simp add: ScalarAccess_assign_def acc)
  have a2: "ScalarAccess_read CType access t = TensorBase_at CType idx t"
    by (simp add: ScalarAccess_read_def acc)
  have ex: "\<exists>t'. assign_all CType access vs t = Inr t' \<and>
               coordinateBuffer_records t' = map (\<lambda>v. (idx, v)) vs \<and>
               stored (TensorBase_pack t') idx = Some (sum_list vs) \<and>
               ScalarAccess_read CType access t' =
                 Some (Inr (sum_list vs, TensorBase_pack t'))"
    by (rule exI [of _ t']) (simp only: all t'(4) stored read simp_thms)
  from a1 a2 ex show ?thesis by (intro conjI)
qed

theorem scalar_access_inserts_witness:
  "buffer_ok matrix_2x2 \<and> coordinateBuffer_records matrix_2x2 = [] \<and>
   getComponentType matrix_2x2 = Datatype KInt 32 \<and>
   Tensor_call [0, 1] matrix_2x2 = Inr \<lparr> accessed = 1, indices = [0, 1] \<rparr> \<and>
   assignment matrix_2x2 = None \<and> \<not> needsCompile matrix_2x2 \<and>
   \<not> needsAssemble matrix_2x2 \<and> \<not> needsCompute matrix_2x2 \<and>
   assign_all (Datatype KInt 32) \<lparr> accessed = 1, indices = [0, 1] \<rparr> [5, 6] matrix_2x2 =
     Inr pending_matrix \<and>
   coordinateBuffer_records pending_matrix = [([0, 1], 5), ([0, 1], 6)] \<and>
   TensorBase_pack pending_matrix = packed_matrix \<and>
   stored packed_matrix [0, 1] = Some 11 \<and>
   ScalarAccess_read (Datatype KInt 32) \<lparr> accessed = 1, indices = [0, 1] \<rparr> pending_matrix =
     Some (Inr (11, packed_matrix))"
proof -
  let ?access = "\<lparr> accessed = 1, indices = [0, 1] \<rparr>"
  have h1: "buffer_ok matrix_2x2"
    by (simp add: buffer_ok_def matrix_2x2_def Tensor_ctor_def getOrder_def
        getComponentType_def)
  have h2: "coordinateBuffer_records matrix_2x2 = []"
    by (simp add: matrix_2x2_def Tensor_ctor_def)
  have h3: "Datatype KInt 32 = getComponentType matrix_2x2"
    by (simp add: matrix_2x2_def Tensor_ctor_def getComponentType_def)
  have h4: "Tensor_call [0, 1] matrix_2x2 = Inr ?access"
    by (simp add: Tensor_call_def matrix_2x2_def Tensor_ctor_def getOrder_def)
  have h5: "[5, 6] \<noteq> ([] :: int list)" by simp
  have h6: "assignment matrix_2x2 = None" "\<not> needsCompile matrix_2x2"
    "\<not> needsAssemble matrix_2x2" "\<not> needsCompute matrix_2x2"
    by (simp_all add: matrix_2x2_def Tensor_ctor_def)
  have run: "assign_all (Datatype KInt 32) ?access [5, 6] matrix_2x2 = Inr pending_matrix"
    by (simp add: ScalarAccess_assign_def TensorBase_insert_def pending_matrix_def
        matrix_2x2_def Tensor_ctor_def getOrder_def getComponentType_def size_t_sub_def
        sizeof_int_def Let_def)
  have pk: "TensorBase_pack pending_matrix = packed_matrix"
    by (simp add: TensorBase_pack_def pending_matrix_def packed_matrix_def matrix_2x2_def
        Tensor_ctor_def pack_records_def)
  from scalar_access_inserts [OF h1 h2 h3 h4 h5 h6, of 0]
  obtain t' where "assign_all (Datatype KInt 32) ?access [5, 6] matrix_2x2 = Inr t'"
    "coordinateBuffer_records t' = map (\<lambda>v. ([0, 1], v)) [5, 6]"
    "stored (TensorBase_pack t') [0, 1] = Some (sum_list [5, 6])"
    "ScalarAccess_read (Datatype KInt 32) ?access t' =
       Some (Inr (sum_list [5, 6], TensorBase_pack t'))"
    by blast
  with run pk have "coordinateBuffer_records pending_matrix = [([0, 1], 5), ([0, 1], 6)]"
    "stored packed_matrix [0, 1] = Some 11"
    "ScalarAccess_read (Datatype KInt 32) ?access pending_matrix =
       Some (Inr (11, packed_matrix))"
    by simp_all
  with h1 h2 h3 h4 h6 run pk show ?thesis by simp
qed

section \<open>Transposition\<close>

lemma gather_reordered:
  "\<forall>m \<in> set modes. 0 \<le> m \<and> nat m < length xs \<Longrightarrow>
     gather xs modes = Inr (reordered modes xs)"
  by (induction modes) (simp_all add: reordered_def at_index_def)

lemma Tensor_ctor_buffer_ok: "buffer_ok (Tensor_ctor p nm ct dims fmt)"
  by (simp add: buffer_ok_def Tensor_ctor_def getOrder_def getComponentType_def)

lemma run_body_transpose:
  fixes nt :: "'v TensorBase"
  assumes "buffer_ok nt" "getOrder nt = length modes" "CType = getComponentType nt"
    and "\<forall>r \<in> set st. length (fst r) = n" "\<forall>m \<in> set modes. 0 \<le> m \<and> nat m < n"
  shows "\<exists>nt'. run_body
                 (\<lambda>v newTensor.
                    case gather (fst v) modes of
                      Inl e \<Rightarrow> Inl e
                    | Inr newCoordinate \<Rightarrow>
                        (case TensorBase_insert CType newCoordinate (snd v) newTensor of
                           Inl e \<Rightarrow> Inl e
                         | Inr newTensor' \<Rightarrow> (Inr (Inr newTensor')
                              :: error + ('v TensorBase + 'v TensorBase))))
                 st nt = Inr (Inr nt') \<and>
               buffer_ok nt' \<and> same_tensor_type nt nt' \<and>
               coordinateBuffer_records nt' =
                 coordinateBuffer_records nt @ map (\<lambda>r. (reordered modes (fst r), snd r)) st"
  using assms(1-4)
proof (induction st arbitrary: nt)
  case Nil
  then show ?case by (simp add: same_tensor_type_def)
next
  case (Cons r st)
  have g: "gather (fst r) modes = Inr (reordered modes (fst r))"
    using Cons.prems(4) assms(5) by (intro gather_reordered) simp
  have len: "length (reordered modes (fst r)) = getOrder nt"
    using Cons.prems(2) by (simp add: reordered_def)
  from insert_ok [OF Cons.prems(1) len Cons.prems(3), of "snd r"]
  obtain nt1 where n1: "TensorBase_insert CType (reordered modes (fst r)) (snd r) nt = Inr nt1"
    "buffer_ok nt1" "same_tensor_type nt nt1"
    "coordinateBuffer_records nt1 =
       coordinateBuffer_records nt @ [(reordered modes (fst r), snd r)]"
    by blast
  have "getOrder nt1 = length modes" "CType = getComponentType nt1"
    "\<forall>r \<in> set st. length (fst r) = n"
    using Cons.prems same_tensor_type_order [OF n1(3)] by simp_all
  from Cons.IH [OF n1(2) this]
  obtain nt' where n': "run_body
                 (\<lambda>v newTensor.
                    case gather (fst v) modes of
                      Inl e \<Rightarrow> Inl e
                    | Inr newCoordinate \<Rightarrow>
                        (case TensorBase_insert CType newCoordinate (snd v) newTensor of
                           Inl e \<Rightarrow> Inl e
                         | Inr newTensor' \<Rightarrow> (Inr (Inr newTensor')
                              :: error + ('v TensorBase + 'v TensorBase))))
                 st nt1 = Inr (Inr nt')"
    "buffer_ok nt'" "same_tensor_type nt1 nt'"
    "coordinateBuffer_records nt' =
       coordinateBuffer_records nt1 @ map (\<lambda>r. (reordered modes (fst r), snd r)) st"
    by blast
  show ?case
    using g n1 n' same_tensor_type_trans [OF n1(3) n'(3)] by simp
qed

lemma reordered_inj:
  assumes "set modes = int ` {0..<n}" "length c = n" "length c' = n"
    and "reordered modes c = reordered modes c'"
  shows "c = c'"
proof (rule nth_equalityI)
  show "length c = length c'" using assms(2,3) by simp
  fix i assume "i < length c"
  then have "int i \<in> set modes" using assms(1,2) by simp
  with assms(4) have "c ! nat (int i) = c' ! nat (int i)"
    unfolding reordered_def by (meson map_eq_conv)
  then show "c ! i = c' ! i" by simp
qed

lemma Tensor_transpose_result:
  fixes t :: "'v::comm_monoid_add TensorBase"
  assumes "well_formed_storage t"
    and "mset newModeOrdering = mset (map int [0..<getOrder t])"
  shows "\<exists>nt. Tensor_transpose p nm CType newModeOrdering fmt t =
                 Some (Inr (TensorBase_pack nt)) \<and>
              same_tensor_type
                (Tensor_ctor p nm CType (reordered newModeOrdering (getDimensions t)) fmt) nt \<and>
              coordinateBuffer_records nt =
                map (\<lambda>r. (reordered newModeOrdering (fst r), snd r)) (storage t) \<and>
              storage (TensorBase_pack nt) =
                map (\<lambda>r. (reordered newModeOrdering (fst r), snd r)) (storage t)"
proof -
  define n where "n = getOrder t"
  define P where "P = (\<lambda>r :: int list \<times> 'v. (reordered newModeOrdering (fst r), snd r))"
  from assms(1) have ar: "\<forall>r \<in> set (storage t). length (fst r) = getOrder t"
    and di: "distinct (map fst (storage t))"
    by (simp_all add: well_formed_storage_def list_all_iff)
  have modes: "set newModeOrdering = int ` {0..<n}"
    using mset_eq_setD [OF assms(2)] by (simp add: n_def)
  have inr: "\<forall>m \<in> set newModeOrdering. 0 \<le> m \<and> nat m < n"
    using modes by auto
  have dims: "gather (getDimensions t) newModeOrdering =
      Inr (reordered newModeOrdering (getDimensions t))"
    using inr by (intro gather_reordered) (simp add: getDimensions_def getOrder_def n_def)
  let ?new = "Tensor_ctor p nm CType (reordered newModeOrdering (getDimensions t)) fmt
                :: 'v TensorBase"
  have new_order: "getOrder ?new = length newModeOrdering"
    by (simp add: getOrder_def Tensor_ctor_def reordered_def)
  have new_type: "CType = getComponentType ?new"
    by (simp add: getComponentType_def Tensor_ctor_def)
  from run_body_transpose [OF Tensor_ctor_buffer_ok new_order new_type ar [folded n_def] inr]
  obtain nt where nt: "run_body
                 (\<lambda>v newTensor.
                    case gather (fst v) newModeOrdering of
                      Inl e \<Rightarrow> Inl e
                    | Inr newCoordinate \<Rightarrow>
                        (case TensorBase_insert CType newCoordinate (snd v) newTensor of
                           Inl e \<Rightarrow> Inl e
                         | Inr newTensor' \<Rightarrow> (Inr (Inr newTensor')
                              :: error + ('v TensorBase + 'v TensorBase))))
                 (storage t) ?new = Inr (Inr nt)"
    and same: "same_tensor_type ?new nt"
    and recs: "coordinateBuffer_records nt = map P (storage t)"
    unfolding P_def by (auto simp: Tensor_ctor_def)
  from range_for_tensor [OF ar, of "[]"] obtain h it e where
    b: "Tensor_begin_const [] t = Inr (h, it)" and e: "Tensor_end_const h t = Inr (h, e)"
    and loop: "\<And>(body :: int list \<times> 'v \<Rightarrow> 'v TensorBase
                    \<Rightarrow> error + ('v TensorBase + 'v TensorBase)) acc.
       range_for body h it e acc = Some (run_body body (storage t) acc)"
    by blast
  have tr: "Tensor_transpose p nm CType newModeOrdering fmt t = Some (Inr (TensorBase_pack nt))"
    by (simp add: Tensor_transpose_def dims b e loop nt)
  have inj: "inj_on (reordered newModeOrdering) (set (map fst (storage t)))"
  proof (rule inj_onI)
    fix c c' assume "c \<in> set (map fst (storage t))" "c' \<in> set (map fst (storage t))"
      and eq: "reordered newModeOrdering c = reordered newModeOrdering c'"
    then have "length c = n" "length c' = n"
      using ar by (auto simp: n_def)
    then show "c = c'" by (rule reordered_inj [OF modes _ _ eq])
  qed
  have "map fst (map P (storage t)) = map (reordered newModeOrdering) (map fst (storage t))"
    by (simp add: P_def comp_def)
  then have "distinct (map fst (map P (storage t)))"
    using di inj by (simp add: distinct_map del: map_map)
  then have st': "storage (TensorBase_pack nt) = map P (storage t)"
    by (simp add: TensorBase_pack_def recs pack_records_distinct)
  from tr same recs st' show ?thesis
    unfolding P_def by blast
qed

text \<open>
  C10, as stated, fails for a tensor with a pending pack: \<open>transpose\<close> is a const member
  and loops over \<open>*this\<close> through \<open>begin() const\<close>, which does not call
  \<open>syncValues()\<close>. For the matrix with two buffered insertions at \<open>(0, 1)\<close>, iterating
  the tensor yields the packed component \<open>((0, 1), 11)\<close>, and the transposed tensor
  holds no component at all.
\<close>

theorem transpose_misses_pending:
  "well_formed_storage pending_matrix \<and>
   mset [1, 0] = mset (map int [0..<getOrder pending_matrix]) \<and>
   needsPack pending_matrix \<and>
   yielded_nonconst pending_matrix = Some (Inr ([([0, 1], 11)], packed_matrix)) \<and>
   Tensor_transpose 7 ''At'' (Datatype KInt 32) [1, 0] CSC pending_matrix =
     Some (Inr transposed_pending) \<and>
   storage transposed_pending = [] \<and>
   yielded transposed_pending = Some (Inr []) \<and>
   yielded_nonconst transposed_pending = Some (Inr ([], transposed_pending))"
proof -
  have ord: "getOrder pending_matrix = 2"
    by (simp add: getOrder_def pending_matrix_def matrix_2x2_def Tensor_ctor_def)
  have st: "storage pending_matrix = []"
    by (simp add: pending_matrix_def matrix_2x2_def Tensor_ctor_def)
  have h1: "well_formed_storage pending_matrix"
    by (simp add: well_formed_storage_def st)
  have p: "mset [1, 0] = mset (map int [0..<2])"
    by (simp add: upt_rec add_mset_commute)
  have h2: "mset [1, 0] = mset (map int [0..<getOrder pending_matrix])"
    using p by (simp only: ord)
  have np: "needsPack pending_matrix"
    by (simp add: pending_matrix_def)
  have s: "syncValues pending_matrix = Inr packed_matrix"
    by (simp add: syncValues_def evaluate_pending_matrix)
  have "\<forall>r \<in> set (storage packed_matrix). length (fst r) = getOrder packed_matrix"
    by (simp add: packed_matrix_def matrix_2x2_def Tensor_ctor_def getOrder_def)
  from yielded_nonconst_synced [OF s this]
  have y: "yielded_nonconst pending_matrix = Some (Inr ([([0, 1], 11)], packed_matrix))"
    by (simp add: packed_matrix_def)
  have d: "getDimensions pending_matrix = [2, 2]"
    by (simp add: getDimensions_def pending_matrix_def matrix_2x2_def Tensor_ctor_def)
  from h1 have ar: "\<forall>r \<in> set (storage pending_matrix). length (fst r) = getOrder pending_matrix"
    by (simp add: well_formed_storage_def list_all_iff)
  from range_for_tensor [OF ar, of "[]"] obtain h it e where
    b: "Tensor_begin_const [] pending_matrix = Inr (h, it)"
    and e: "Tensor_end_const h pending_matrix = Inr (h, e)"
    and loop: "\<And>(body :: int list \<times> int \<Rightarrow> int TensorBase
                    \<Rightarrow> error + (int TensorBase + int TensorBase)) acc.
       range_for body h it e acc = Some (run_body body (storage pending_matrix) acc)"
    by blast
  have pk: "TensorBase_pack transposed_pending = transposed_pending"
    by (simp add: TensorBase_pack_def transposed_pending_def Tensor_ctor_def pack_records_def)
  have tr: "Tensor_transpose 7 ''At'' (Datatype KInt 32) [1, 0] CSC pending_matrix =
      Some (Inr transposed_pending)"
    by (simp add: Tensor_transpose_def d at_index_def b e loop st pk
        transposed_pending_def [symmetric])
  have st': "storage transposed_pending = []"
    by (simp add: transposed_pending_def Tensor_ctor_def)
  have ar': "\<forall>r \<in> set (storage transposed_pending).
      length (fst r) = getOrder transposed_pending"
    by (simp add: st')
  have nsp: "no_stage_pending transposed_pending"
    by (simp add: no_stage_pending_def transposed_pending_def Tensor_ctor_def)
  from yielded_storage [OF ar']
  have y1: "yielded transposed_pending = Some (Inr [])"
    by (simp only: st')
  from yielded_nonconst_synced [OF syncValues_no_stage_pending [OF nsp] ar']
  have y2: "yielded_nonconst transposed_pending = Some (Inr ([], transposed_pending))"
    by (simp only: st')
  from h1 h2 np y tr st' y1 y2 show ?thesis by simp
qed

text \<open>
  C10, amended: let the stored coordinates of \<open>T\<close> have its order and be distinct, and
  let the new mode ordering be a permutation of the modes \<open>0, ..., order - 1\<close>. Then
  \<open>transpose\<close> returns a tensor that holds the components of the storage of \<open>T\<close> as it
  is, which are the pairs a loop over the const \<open>T\<close> yields: iterating the result
  (through either overload) yields, for every such pair, the pair with the coordinate
  rearranged in the new mode order and the same value, and nothing else. When no stage
  is pending on \<open>T\<close>, these are the pairs that a loop over the non-const \<open>T\<close> yields as
  well. The dimensions of the result are those of \<open>T\<close> rearranged in the same way, and
  it is returned packed: no stage is pending and its coordinate buffer holds no
  record.
\<close>

theorem transpose_permutes:
  fixes t :: "'v::comm_monoid_add TensorBase"
  assumes "well_formed_storage t"
    and "mset newModeOrdering = mset (map int [0..<getOrder t])"
  shows "\<exists>t'. Tensor_transpose p nm CType newModeOrdering fmt t = Some (Inr t') \<and>
           yielded t = Some (Inr (storage t)) \<and>
           (no_stage_pending t \<longrightarrow> yielded_nonconst t = Some (Inr (storage t, t))) \<and>
           yielded t' =
             Some (Inr (map (\<lambda>r. (reordered newModeOrdering (fst r), snd r)) (storage t))) \<and>
           yielded_nonconst t' =
             Some (Inr (map (\<lambda>r. (reordered newModeOrdering (fst r), snd r)) (storage t), t')) \<and>
           getDimensions t' = reordered newModeOrdering (getDimensions t) \<and>
           getFormat t' = fmt \<and> getComponentType t' = CType \<and>
           no_stage_pending t' \<and> coordinateBuffer_records t' = []"
proof -
  define P where "P = (\<lambda>r :: int list \<times> 'v. (reordered newModeOrdering (fst r), snd r))"
  from assms(1) have ar: "\<forall>r \<in> set (storage t). length (fst r) = getOrder t"
    by (simp add: well_formed_storage_def list_all_iff)
  from Tensor_transpose_result [OF assms, of p nm CType fmt]
  obtain nt where
    tr: "Tensor_transpose p nm CType newModeOrdering fmt t = Some (Inr (TensorBase_pack nt))"
    and same: "same_tensor_type
                (Tensor_ctor p nm CType (reordered newModeOrdering (getDimensions t)) fmt) nt"
    and st': "storage (TensorBase_pack nt) = map P (storage t)"
    unfolding P_def by blast
  have fields: "dimensions nt = reordered newModeOrdering (getDimensions t)"
    "format nt = fmt" "ctype nt = CType" "assignment nt = None"
    "\<not> needsCompile nt" "\<not> needsAssemble nt" "\<not> needsCompute nt"
    using same by (simp_all add: same_tensor_type_def Tensor_ctor_def)
  have lm: "length newModeOrdering = getOrder t"
    using mset_eq_length [OF assms(2)] by simp
  have ar': "\<forall>r \<in> set (storage (TensorBase_pack nt)).
               length (fst r) = getOrder (TensorBase_pack nt)"
    unfolding st'
    by (simp add: P_def getOrder_def TensorBase_pack_def fields(1) reordered_def)
  have y': "yielded (TensorBase_pack nt) = Some (Inr (map P (storage t)))"
    using yielded_storage [OF ar'] by (simp only: st')
  have props: "getDimensions (TensorBase_pack nt) = reordered newModeOrdering (getDimensions t)"
    "getFormat (TensorBase_pack nt) = fmt" "getComponentType (TensorBase_pack nt) = CType"
    "no_stage_pending (TensorBase_pack nt)"
    "coordinateBuffer_records (TensorBase_pack nt) = []"
    using fields
    by (simp_all add: getDimensions_def getFormat_def getComponentType_def
        no_stage_pending_def TensorBase_pack_def)
  have n': "yielded_nonconst (TensorBase_pack nt) =
      Some (Inr (map P (storage t), TensorBase_pack nt))"
    using yielded_nonconst_synced [OF syncValues_no_stage_pending [OF props(4)] ar']
    by (simp only: st')
  have n: "no_stage_pending t \<longrightarrow> yielded_nonconst t = Some (Inr (storage t, t))"
    using yielded_nonconst_synced [OF syncValues_no_stage_pending ar] by blast
  from tr yielded_storage [OF ar] n y' n' props show ?thesis
    unfolding P_def by blast
qed

theorem transpose_permutes_witness:
  "well_formed_storage wide_matrix \<and> getOrder wide_matrix = 2 \<and>
   mset [1, 0] = mset (map int [0..<2]) \<and> no_stage_pending wide_matrix \<and>
   getDimensions wide_matrix = [2, 3] \<and>
   yielded wide_matrix = Some (Inr [([0, 1], 5), ([1, 2], 7)]) \<and>
   yielded_nonconst wide_matrix = Some (Inr ([([0, 1], 5), ([1, 2], 7)], wide_matrix)) \<and>
   (\<exists>t'. Tensor_transpose 7 ''At'' (Datatype KInt 32) [1, 0] CSC wide_matrix = Some (Inr t') \<and>
         yielded t' = Some (Inr [([1, 0], 5), ([2, 1], 7)]) \<and>
         yielded_nonconst t' = Some (Inr ([([1, 0], 5), ([2, 1], 7)], t')) \<and>
         getDimensions t' = [3, 2] \<and> getFormat t' = CSC \<and> no_stage_pending t' \<and>
         coordinateBuffer_records t' = [])"
proof -
  have ord: "getOrder wide_matrix = 2"
    by (simp add: getOrder_def wide_matrix_def Tensor_ctor_def)
  have st: "storage wide_matrix = [([0, 1], 5), ([1, 2], 7)]"
    by (simp add: wide_matrix_def)
  have h1: "well_formed_storage wide_matrix"
    by (simp add: well_formed_storage_def st ord)
  have p: "mset [1, 0] = mset (map int [0..<2])"
    by (simp add: upt_rec add_mset_commute)
  have h2: "mset [1, 0] = mset (map int [0..<getOrder wide_matrix])"
    using p by (simp only: ord)
  have d: "getDimensions wide_matrix = [2, 3]"
    by (simp add: getDimensions_def wide_matrix_def Tensor_ctor_def)
  have ns: "no_stage_pending wide_matrix"
    by (simp add: no_stage_pending_def wide_matrix_def Tensor_ctor_def)
  from transpose_permutes [OF h1 h2, of 7 "''At''" "Datatype KInt 32" CSC] ns
  obtain t' where t': "Tensor_transpose 7 ''At'' (Datatype KInt 32) [1, 0] CSC wide_matrix =
        Some (Inr t')"
    "yielded wide_matrix = Some (Inr (storage wide_matrix))"
    "yielded_nonconst wide_matrix = Some (Inr (storage wide_matrix, wide_matrix))"
    "yielded t' = Some (Inr (map (\<lambda>r. (reordered [1, 0] (fst r), snd r))
                              (storage wide_matrix)))"
    "yielded_nonconst t' = Some (Inr (map (\<lambda>r. (reordered [1, 0] (fst r), snd r))
                              (storage wide_matrix), t'))"
    "getDimensions t' = reordered [1, 0] (getDimensions wide_matrix)"
    "getFormat t' = CSC" "no_stage_pending t'" "coordinateBuffer_records t' = []"
    by blast
  have "yielded wide_matrix = Some (Inr [([0, 1], 5), ([1, 2], 7)])"
    "yielded_nonconst wide_matrix = Some (Inr ([([0, 1], 5), ([1, 2], 7)], wide_matrix))"
    "yielded t' = Some (Inr [([1, 0], 5), ([2, 1], 7)])"
    "yielded_nonconst t' = Some (Inr ([([1, 0], 5), ([2, 1], 7)], t'))"
    "getDimensions t' = [3, 2]"
    using t'(2-6) unfolding st d by (simp_all add: reordered_def)
  with h1 ord p d ns t'(1,7,8,9) show ?thesis by blast
qed

end
